theory Spec2Isabelle
  imports Main "HOL-Library.AList" "HOL-Library.Sublist"
    "HOL-Library.Char_ord" "HOL-Library.List_Lexorder"
begin

section \<open>Python values\<close>

text \<open>
  The controller of \<^verbatim>\<open>odm_controller.py\<close> works on untyped values: the flat
  record of the external system, and the mapping document read with \<^verbatim>\<open>json.load\<close>.
  A value is \<^verbatim>\<open>None\<close>, a boolean, an integer, a float, a string, a list, a dictionary
  with string keys (a JSON object; the association list keeps Python's insertion order),
  a \<^verbatim>\<open>datetime.date\<close> or a \<^verbatim>\<open>datetime.datetime\<close> (a date and the
  microseconds since midnight). The float type is a parameter \<open>'f\<close>.
\<close>

datatype date = Date (year: nat) (month: nat) (day: nat)

datatype 'f pyval =
    PNone
  | PBool bool
  | PInt int
  | PFloat 'f
  | PStr string
  | PList "'f pyval list"
  | PDict "(string \<times> 'f pyval) list"
  | PDate date
  | PDateTime date nat

type_synonym 'f pydict = "(string \<times> 'f pyval) list"

text \<open>
  Every exception the code can raise is a value. The controller itself raises
  \<open>InvalidInput\<close> (line 65), \<open>MissingRequired\<close> with the missing targets (line 74),
  \<open>NoRequestBuilt\<close> (line 85), \<open>MappingFileNotFound\<close> with the path (line 91),
  \<open>UnsupportedVarType\<close> with the type (line 229) and \<open>InvalidDate\<close> (line 243). The
  others come from the interpreter: \<open>InvalidDate\<close> is also what a failing
  \<^verbatim>\<open>strptime\<close> or \<^verbatim>\<open>fromisoformat\<close> raises, \<open>CoercionError\<close> is a failing
  \<^verbatim>\<open>float(x)\<close> or \<^verbatim>\<open>int(x)\<close>, \<open>PyTypeError\<close> is an unhashable dictionary key,
  an object that is not iterable or not serializable, or a format that is no string,
  \<open>PyAttributeError\<close> a method (\<^verbatim>\<open>get\<close>, \<^verbatim>\<open>items\<close>, \<^verbatim>\<open>append\<close>) called on
  an object that lacks it, \<open>PyKeyError\<close> a subscript with a missing key.
\<close>

datatype 'f error =
    InvalidInput
  | MappingFileNotFound string
  | MissingRequired "'f pyval list"
  | NoRequestBuilt
  | UnsupportedVarType string
  | InvalidDate
  | CoercionError
  | PyTypeError
  | PyAttributeError
  | PyKeyError

text \<open>
  The interpreter's built-in functions that the controller calls and that depend on
  floating point, on Unicode, on the C library or on the per-process string hash are
  the fields of a platform record; the controller's functions take it as their first
  argument. \<open>None\<close> stands for the exception the built-in raises.
  \<^item> \<open>float_of_str\<close>, \<open>float_of_int\<close>: \<^verbatim>\<open>float(s)\<close>, \<^verbatim>\<open>float(i)\<close>;
  \<^item> \<open>int_of_str\<close>, \<open>int_of_float\<close>: \<^verbatim>\<open>int(s)\<close>, \<^verbatim>\<open>int(x)\<close>;
  \<^item> \<open>float_mul\<close>: the product of two floats; \<open>float_nonzero\<close>: their truth value;
  \<^item> \<open>str_of\<close>: \<^verbatim>\<open>str(v)\<close>;
  \<^item> \<open>str_strip\<close>, \<open>str_upper\<close>, \<open>str_lower\<close>: \<^verbatim>\<open>s.strip()\<close>, \<^verbatim>\<open>s.upper()\<close>,
    \<^verbatim>\<open>s.lower()\<close> (what counts as whitespace and as a letter depends on Unicode);
  \<^item> \<open>strptime\<close>: \<^verbatim>\<open>datetime.strptime(s, fmt).date()\<close>;
  \<^item> \<open>fromisoformat\<close>: \<^verbatim>\<open>date.fromisoformat(s)\<close>;
  \<^item> \<open>strftime\<close>: \<^verbatim>\<open>d.strftime(fmt)\<close> of a date;
  \<^item> \<open>set_iter\<close>: the order in which a \<^verbatim>\<open>set\<close> built from the given hashable
    elements is iterated (each element once; the order follows the hashes);
  \<^item> \<open>json_dumps\<close>: \<^verbatim>\<open>json.dumps(v, ensure_ascii=False, indent=n)\<close>.
\<close>

record 'f platform =
  float_of_str :: "string \<Rightarrow> 'f option"
  float_of_int :: "int \<Rightarrow> 'f option"
  int_of_str :: "string \<Rightarrow> int option"
  int_of_float :: "'f \<Rightarrow> int option"
  float_mul :: "'f \<Rightarrow> 'f \<Rightarrow> 'f"
  float_nonzero :: "'f \<Rightarrow> bool"
  str_of :: "'f pyval \<Rightarrow> string"
  str_strip :: "string \<Rightarrow> string"
  str_upper :: "string \<Rightarrow> string"
  str_lower :: "string \<Rightarrow> string"
  strptime :: "string \<Rightarrow> string \<Rightarrow> date option"
  fromisoformat :: "string \<Rightarrow> date option"
  strftime :: "date \<Rightarrow> string \<Rightarrow> string"
  set_iter :: "'f pyval list \<Rightarrow> 'f pyval list"
  json_dumps :: "'f pyval \<Rightarrow> int \<Rightarrow> string option"

subsection \<open>Errors as values\<close>

definition ebind :: "'e + 'a \<Rightarrow> ('a \<Rightarrow> 'e + 'b) \<Rightarrow> 'e + 'b" where
  "ebind m f = (case m of Inl e \<Rightarrow> Inl e | Inr x \<Rightarrow> f x)"

text \<open>A \<^verbatim>\<open>for\<close> loop whose body may raise: the first exception ends the loop.\<close>

fun foldE :: "('s \<Rightarrow> 'a \<Rightarrow> 'e + 's) \<Rightarrow> 's \<Rightarrow> 'a list \<Rightarrow> 'e + 's" where
  "foldE f s [] = Inr s"
| "foldE f s (x # xs) = (case f s x of Inl e \<Rightarrow> Inl e | Inr s' \<Rightarrow> foldE f s' xs)"

text \<open>A list comprehension \<^verbatim>\<open>[f(x) for x in xs]\<close> whose \<open>f\<close> may raise.\<close>

fun mapE :: "('a \<Rightarrow> 'e + 'b) \<Rightarrow> 'a list \<Rightarrow> 'e + 'b list" where
  "mapE f [] = Inr []"
| "mapE f (x # xs) =
     (case f x of Inl e \<Rightarrow> Inl e
      | Inr y \<Rightarrow> (case mapE f xs of Inl e \<Rightarrow> Inl e | Inr ys \<Rightarrow> Inr (y # ys)))"

subsection \<open>Truth values, dictionaries, iteration\<close>

fun truthy :: "'f platform \<Rightarrow> 'f pyval \<Rightarrow> bool" where
  "truthy P PNone = False"
| "truthy P (PBool b) = b"
| "truthy P (PInt i) = (i \<noteq> 0)"
| "truthy P (PFloat x) = float_nonzero P x"
| "truthy P (PStr s) = (s \<noteq> [])"
| "truthy P (PList xs) = (xs \<noteq> [])"
| "truthy P (PDict d) = (d \<noteq> [])"
| "truthy P (PDate d) = True"
| "truthy P (PDateTime d t) = True"

text \<open>\<^verbatim>\<open>a or b\<close>\<close>

definition py_or :: "'f platform \<Rightarrow> 'f pyval \<Rightarrow> 'f pyval \<Rightarrow> 'f pyval" where
  "py_or P a b = (if truthy P a then a else b)"


text \<open>\<^verbatim>\<open>cfg.get(k)\<close> and \<^verbatim>\<open>k in cfg\<close> on a dictionary.\<close>

definition cfg_get :: "'f pydict \<Rightarrow> string \<Rightarrow> 'f pyval" where
  "cfg_get cfg k = (case map_of cfg k of Some v \<Rightarrow> v | None \<Rightarrow> PNone)"

definition has_key :: "'f pydict \<Rightarrow> string \<Rightarrow> bool" where
  "has_key cfg k = (map_of cfg k \<noteq> None)"

text \<open>\<^verbatim>\<open>obj.get(k, default)\<close> on any object: only a dictionary has the method.\<close>

definition py_get :: "'f pyval \<Rightarrow> string \<Rightarrow> 'f pyval \<Rightarrow> 'f error + 'f pyval" where
  "py_get obj k dflt =
     (case obj of
        PDict d \<Rightarrow> Inr (case map_of d k of Some v \<Rightarrow> v | None \<Rightarrow> dflt)
      | _ \<Rightarrow> Inl PyAttributeError)"

text \<open>
  \<^verbatim>\<open>d.get(key, default)\<close> where the key is any value: the key is hashed first, which
  fails for a list or a dictionary; the keys of \<open>d\<close> are strings, so only a string
  can be found.
\<close>

definition dict_lookup :: "'f pydict \<Rightarrow> 'f pyval \<Rightarrow> 'f pyval \<Rightarrow> 'f error + 'f pyval" where
  "dict_lookup d k dflt =
     (case k of
        PStr s \<Rightarrow> Inr (case map_of d s of Some v \<Rightarrow> v | None \<Rightarrow> dflt)
      | PList xs \<Rightarrow> Inl PyTypeError
      | PDict m \<Rightarrow> Inl PyTypeError
      | _ \<Rightarrow> Inr dflt)"

text \<open>\<^verbatim>\<open>key in d\<close> where the key is any value.\<close>

definition key_in :: "'f pyval \<Rightarrow> 'f pydict \<Rightarrow> 'f error + bool" where
  "key_in k d =
     (case k of
        PStr s \<Rightarrow> Inr (map_of d s \<noteq> None)
      | PList xs \<Rightarrow> Inl PyTypeError
      | PDict m \<Rightarrow> Inl PyTypeError
      | _ \<Rightarrow> Inr False)"

text \<open>\<^verbatim>\<open>d[key]\<close>\<close>

definition subscript :: "'f pydict \<Rightarrow> 'f pyval \<Rightarrow> 'f error + 'f pyval" where
  "subscript d k =
     (case k of
        PStr s \<Rightarrow> (case map_of d s of Some v \<Rightarrow> Inr v | None \<Rightarrow> Inl PyKeyError)
      | PList xs \<Rightarrow> Inl PyTypeError
      | PDict m \<Rightarrow> Inl PyTypeError
      | _ \<Rightarrow> Inl PyKeyError)"

text \<open>\<^verbatim>\<open>(v or {}).items()\<close>\<close>

definition items_or_empty :: "'f platform \<Rightarrow> 'f pyval \<Rightarrow> 'f error + 'f pydict" where
  "items_or_empty P v =
     (case py_or P v (PDict []) of PDict d \<Rightarrow> Inr d | _ \<Rightarrow> Inl PyAttributeError)"

text \<open>
  \<^verbatim>\<open>for x in v\<close>: a list gives its elements, a string its characters (strings of
  length one), a dictionary its keys; nothing else is iterable.
\<close>

definition py_iter :: "'f pyval \<Rightarrow> 'f error + 'f pyval list" where
  "py_iter v =
     (case v of
        PList xs \<Rightarrow> Inr xs
      | PStr s \<Rightarrow> Inr (map (\<lambda>c. PStr [c]) s)
      | PDict d \<Rightarrow> Inr (map (\<lambda>kv. PStr (fst kv)) d)
      | _ \<Rightarrow> Inl PyTypeError)"

text \<open>\<^verbatim>\<open>float(v)\<close> and \<^verbatim>\<open>int(v)\<close>\<close>

definition py_float :: "'f platform \<Rightarrow> 'f pyval \<Rightarrow> 'f error + 'f" where
  "py_float P v =
     (case v of
        PFloat x \<Rightarrow> Inr x
      | PInt i \<Rightarrow> (case float_of_int P i of Some x \<Rightarrow> Inr x | None \<Rightarrow> Inl CoercionError)
      | PBool b \<Rightarrow>
          (case float_of_int P (if b then 1 else 0) of
             Some x \<Rightarrow> Inr x | None \<Rightarrow> Inl CoercionError)
      | PStr s \<Rightarrow> (case float_of_str P s of Some x \<Rightarrow> Inr x | None \<Rightarrow> Inl CoercionError)
      | _ \<Rightarrow> Inl CoercionError)"

definition py_int :: "'f platform \<Rightarrow> 'f pyval \<Rightarrow> 'f error + int" where
  "py_int P v =
     (case v of
        PInt i \<Rightarrow> Inr i
      | PBool b \<Rightarrow> Inr (if b then 1 else 0)
      | PFloat x \<Rightarrow> (case int_of_float P x of Some i \<Rightarrow> Inr i | None \<Rightarrow> Inl CoercionError)
      | PStr s \<Rightarrow> (case int_of_str P s of Some i \<Rightarrow> Inr i | None \<Rightarrow> Inl CoercionError)
      | _ \<Rightarrow> Inl CoercionError)"

subsection \<open>Strings\<close>

text \<open>\<^verbatim>\<open>s.split(",")\<close>: the pieces between the commas, empty pieces included.\<close>

fun split_comma :: "string \<Rightarrow> string list" where
  "split_comma [] = [[]]"
| "split_comma (c # cs) =
     (if c = CHR '','' then [] # split_comma cs
      else (case split_comma cs of [] \<Rightarrow> [[c]] | p # ps \<Rightarrow> (c # p) # ps))"

text \<open>
  \<^verbatim>\<open>[t.strip() for t in value.replace(";", ",").split(",") if t.strip()]\<close>
\<close>

definition split_csv :: "'f platform \<Rightarrow> string \<Rightarrow> string list" where
  "split_csv P s =
     map (str_strip P) (filter (\<lambda>t. str_strip P t \<noteq> [])
       (split_comma (map (\<lambda>c. if c = CHR '';'' then CHR '','' else c) s)))"

section \<open>The controller\<close>


definition ODM_DATE_FORMAT :: string where
  "ODM_DATE_FORMAT = ''%Y-%m-%d''"




subsection \<open>\<^verbatim>\<open>_normalize_date\<close>\<close>

definition normalize_date :: "'f platform \<Rightarrow> 'f pyval \<Rightarrow> 'f pyval \<Rightarrow> 'f error + 'f pyval" where
  "normalize_date P v fmt_in =
     (if v = PNone \<or> v = PStr [] then Inr PNone
      else case v of
        PDate d \<Rightarrow> Inr (PStr (strftime P d ODM_DATE_FORMAT))
      | PDateTime d t \<Rightarrow> Inr (PStr (strftime P d ODM_DATE_FORMAT))
      | PStr v' \<Rightarrow>
          (let s = str_strip P v' in
           if truthy P fmt_in then
             (case fmt_in of
                PStr f \<Rightarrow>
                  (case strptime P s f of
                     Some d \<Rightarrow> Inr (PStr (strftime P d ODM_DATE_FORMAT))
                   | None \<Rightarrow> Inl InvalidDate)
              | _ \<Rightarrow> Inl PyTypeError)
           else
             (case fromisoformat P (take 10 s) of
                Some d \<Rightarrow> Inr (PStr (strftime P d ODM_DATE_FORMAT))
              | None \<Rightarrow> Inl InvalidDate))
      | _ \<Rightarrow> Inl InvalidDate)"

subsection \<open>\<^verbatim>\<open>_apply_transform\<close>\<close>

text \<open>
  The function is a chain of seven blocks, each rewriting \<^verbatim>\<open>value\<close>; each block is
  a function here, in the order of the source.
\<close>

text \<open>The default for a value that is \<^verbatim>\<open>None\<close> or a blank string.\<close>

definition stage_default :: "'f platform \<Rightarrow> 'f pyval \<Rightarrow> 'f pydict \<Rightarrow> 'f pyval" where
  "stage_default P v cfg =
     (if (v = PNone \<or> (case v of PStr s \<Rightarrow> str_strip P s = [] | _ \<Rightarrow> False))
         \<and> has_key cfg ''default''
      then cfg_get cfg ''default'' else v)"

text \<open>\<^verbatim>\<open>map_from\<close> (alias \<^verbatim>\<open>map\<close>): exact substitution.\<close>

definition stage_map :: "'f platform \<Rightarrow> 'f pydict \<Rightarrow> 'f pyval \<Rightarrow> 'f error + 'f pyval" where
  "stage_map P cfg v =
     (case py_or P (cfg_get cfg ''map_from'') (cfg_get cfg ''map'') of
        PDict m \<Rightarrow> dict_lookup m v v
      | _ \<Rightarrow> Inr v)"

text \<open>\<^verbatim>\<open>split_csv\<close>: a string becomes the list of its tokens.\<close>

definition stage_split :: "'f platform \<Rightarrow> 'f pydict \<Rightarrow> 'f pyval \<Rightarrow> 'f pyval" where
  "stage_split P cfg v =
     (if truthy P (cfg_get cfg ''split_csv'')
      then (case v of PStr s \<Rightarrow> PList (map PStr (split_csv P s)) | _ \<Rightarrow> v)
      else v)"

text \<open>\<^verbatim>\<open>date_in\<close> or \<^verbatim>\<open>as_date\<close>: the date is normalized.\<close>

definition stage_date :: "'f platform \<Rightarrow> 'f pydict \<Rightarrow> 'f pyval \<Rightarrow> 'f error + 'f pyval" where
  "stage_date P cfg v =
     (if has_key cfg ''date_in'' \<or> truthy P (cfg_get cfg ''as_date'')
      then normalize_date P v (cfg_get cfg ''date_in'')
      else Inr v)"

text \<open>\<^verbatim>\<open>strip\<close>, \<^verbatim>\<open>upper\<close>, \<^verbatim>\<open>lower\<close>, on a string only.\<close>

definition stage_strings :: "'f platform \<Rightarrow> 'f pydict \<Rightarrow> 'f pyval \<Rightarrow> 'f pyval" where
  "stage_strings P cfg v =
     (case v of
        PStr s \<Rightarrow>
          (let s1 = (if truthy P (cfg_get cfg ''strip'') then str_strip P s else s);
               s2 = (if truthy P (cfg_get cfg ''upper'') then str_upper P s1 else s1);
               s3 = (if truthy P (cfg_get cfg ''lower'') then str_lower P s2 else s2)
           in PStr s3)
      | _ \<Rightarrow> v)"

text \<open>\<^verbatim>\<open>bool_map\<close>: the table's entry, or the truth value of the value.\<close>

definition stage_bool :: "'f platform \<Rightarrow> 'f pydict \<Rightarrow> 'f pyval \<Rightarrow> 'f error + 'f pyval" where
  "stage_bool P cfg v =
     (case cfg_get cfg ''bool_map'' of
        PDict bm \<Rightarrow> dict_lookup bm v (PBool (truthy P v))
      | _ \<Rightarrow> Inr v)"

text \<open>
  \<^verbatim>\<open>scale\<close>: the product of the two floats; any exception of the two casts is
  caught and the value stays.
\<close>

definition stage_scale :: "'f platform \<Rightarrow> 'f pydict \<Rightarrow> 'f pyval \<Rightarrow> 'f pyval" where
  "stage_scale P cfg v =
     (if has_key cfg ''scale'' \<and> v \<noteq> PNone then
        (case py_float P v of
           Inl e \<Rightarrow> v
         | Inr a \<Rightarrow>
             (case py_float P (cfg_get cfg ''scale'') of
                Inl e \<Rightarrow> v
              | Inr b \<Rightarrow> PFloat (float_mul P a b)))
      else v)"

definition apply_transform :: "'f platform \<Rightarrow> 'f pyval \<Rightarrow> 'f pydict \<Rightarrow> 'f error + 'f pyval" where
  "apply_transform P v cfg =
     ebind (stage_map P cfg (stage_default P v cfg)) (\<lambda>v2.
     ebind (stage_date P cfg (stage_split P cfg v2)) (\<lambda>v4.
     ebind (stage_bool P cfg (stage_strings P cfg v4)) (\<lambda>v6.
     Inr (stage_scale P cfg v6))))"

subsection \<open>\<^verbatim>\<open>_add_var\<close>\<close>

definition var_entry :: "string \<Rightarrow> 'f pyval \<Rightarrow> 'f pyval" where
  "var_entry name v = PDict [(''name'', PStr name), (''value'', v)]"

text \<open>
  \<^verbatim>\<open>co.setdefault(key, [])\<close> followed by the lookup of \<^verbatim>\<open>append\<close>: the list under
  the key (empty when the key is new); a value that is no list has no \<^verbatim>\<open>append\<close>.
\<close>

definition setdefault_list :: "'f pydict \<Rightarrow> string \<Rightarrow> 'f error + 'f pyval list" where
  "setdefault_list co key =
     (case map_of co key of
        None \<Rightarrow> Inr []
      | Some (PList xs) \<Rightarrow> Inr xs
      | Some _ \<Rightarrow> Inl PyAttributeError)"

text \<open>
  \<^verbatim>\<open>(co.setdefault(key, [])).append({"name": name, "value": val})\<close>: the list is
  looked up before the value is computed.
\<close>

definition append_var ::
  "'f pydict \<Rightarrow> string \<Rightarrow> string \<Rightarrow> 'f error + 'f pyval \<Rightarrow> 'f error + 'f pydict"
where
  "append_var co key name val =
     ebind (setdefault_list co key) (\<lambda>xs.
     ebind val (\<lambda>v.
     Inr (AList.update key (PList (xs @ [var_entry name v])) co)))"

text \<open>
  The elements of a \<^verbatim>\<open>list_double\<close>: \<^verbatim>\<open>[float(x) for x in value]\<close> for a list,
  \<^verbatim>\<open>[float(x) for x in (value or [])]\<close> for anything else.
\<close>

definition list_double_values :: "'f platform \<Rightarrow> 'f pyval \<Rightarrow> 'f error + 'f list" where
  "list_double_values P v =
     (case v of
        PList xs \<Rightarrow> mapE (py_float P) xs
      | _ \<Rightarrow> ebind (py_iter (py_or P v (PList []))) (mapE (py_float P)))"

definition add_var ::
  "'f platform \<Rightarrow> 'f pydict \<Rightarrow> string \<Rightarrow> string \<Rightarrow> 'f pyval \<Rightarrow> 'f error + 'f pydict"
where
  "add_var P co vtype name v =
     (if v = PNone then Inr co
      else if vtype = ''date'' then
        append_var co ''dateVariables'' name (Inr (PStr (str_of P v)))
      else if vtype = ''double'' then
        append_var co ''doubleVariables'' name
          (ebind (py_float P v) (\<lambda>x. Inr (PFloat x)))
      else if vtype = ''integer'' then
        append_var co ''integerVariables'' name
          (ebind (py_int P v) (\<lambda>i. Inr (PInt i)))
      else if vtype = ''string'' then
        append_var co ''stringVariables'' name (Inr (PStr (str_of P v)))
      else if vtype = ''list_double'' then
        ebind (list_double_values P v) (\<lambda>vals.
          append_var co ''listOfDoubleVariables'' name (Inr (PList (map PFloat vals))))
      else Inl (UnsupportedVarType vtype))"

subsection \<open>\<^verbatim>\<open>_build_by_odm_keys\<close>\<close>

text \<open>
  The state of the function is the dictionary \<^verbatim>\<open>co\<close> and the list
  \<^verbatim>\<open>produced_targets\<close>.
\<close>

type_synonym 'f build_state = "'f pydict \<times> string list"

definition COLLECTION_KEYS :: "string list" where
  "COLLECTION_KEYS =
     [''dateVariables'', ''doubleVariables'', ''integerVariables'', ''stringVariables'',
      ''listOfDoubleVariables'']"

text \<open>
  A rule is a string (the source key, with an empty configuration) or a dictionary:
  \<^verbatim>\<open>src_key = spec.get("from")\<close>, \<^verbatim>\<open>cfg = dict(spec); cfg.pop("from", None)\<close>.
\<close>

definition rule_parts :: "'f pyval \<Rightarrow> 'f error + ('f pyval \<times> 'f pydict)" where
  "rule_parts spec =
     (case spec of
        PStr s \<Rightarrow> Inr (PStr s, [])
      | PDict d \<Rightarrow> Inr (cfg_get d ''from'', AList.delete ''from'' d)
      | _ \<Rightarrow> Inl PyAttributeError)"

text \<open>Lines 106 and 107: the constants of \<^verbatim>\<open>co_fields\<close>.\<close>

definition constant_fields :: "'f platform \<Rightarrow> 'f pyval \<Rightarrow> 'f error + 'f pydict" where
  "constant_fields P mapping =
     ebind (py_get mapping ''constants'' (PDict [])) (\<lambda>c.
     ebind (py_get c ''co_fields'' (PDict [])) (\<lambda>cf.
     ebind (items_or_empty P cf) (\<lambda>kvs.
     Inr (fold (\<lambda>kv co. AList.update (fst kv) (snd kv) co) kvs []))))"

text \<open>Lines 111 to 124: one rule of \<^verbatim>\<open>co_fields\<close>.\<close>

definition scalar_rule ::
  "'f platform \<Rightarrow> 'f pydict \<Rightarrow> 'f build_state \<Rightarrow> string \<times> 'f pyval \<Rightarrow> 'f error + 'f build_state"
where
  "scalar_rule P external_flat st r =
     (case st of (co, produced) \<Rightarrow>
      case r of (odm_name, spec) \<Rightarrow>
        ebind (rule_parts spec) (\<lambda>(src_key, cfg).
        ebind (key_in src_key external_flat) (\<lambda>present.
          if present then
            ebind (subscript external_flat src_key) (\<lambda>raw.
            ebind (apply_transform P raw cfg) (\<lambda>val.
            Inr (AList.update odm_name val co, produced @ [odm_name])))
          else if has_key cfg ''default'' then
            Inr (AList.update odm_name (cfg_get cfg ''default'') co, produced @ [odm_name])
          else Inr (co, produced))))"

definition scalar_rules ::
  "'f platform \<Rightarrow> 'f pydict \<Rightarrow> 'f pyval \<Rightarrow> 'f build_state \<Rightarrow> 'f error + 'f build_state"
where
  "scalar_rules P external_flat mapping st =
     ebind (py_get mapping ''co_fields'' PNone) (\<lambda>cf.
     ebind (items_or_empty P cf) (\<lambda>rules.
     foldE (scalar_rule P external_flat) st rules))"

text \<open>Line 127: the five collections start empty.\<close>

definition init_collections :: "'f pydict \<Rightarrow> 'f pydict" where
  "init_collections co = fold (\<lambda>k c. AList.update k (PList []) c) COLLECTION_KEYS co"

text \<open>Lines 130 to 133: the constants of \<^verbatim>\<open>variables\<close>.\<close>

definition constant_var ::
  "'f platform \<Rightarrow> string \<Rightarrow> 'f build_state \<Rightarrow> string \<times> 'f pyval \<Rightarrow> 'f error + 'f build_state"
where
  "constant_var P vtype st nv =
     (case st of (co, produced) \<Rightarrow>
      case nv of (name, v) \<Rightarrow>
        ebind (add_var P co vtype name v) (\<lambda>co'.
        Inr (co', produced @ [name])))"

definition constant_vars_of_type ::
  "'f platform \<Rightarrow> 'f build_state \<Rightarrow> string \<times> 'f pyval \<Rightarrow> 'f error + 'f build_state"
where
  "constant_vars_of_type P st td =
     (case td of (vtype, d) \<Rightarrow>
        ebind (items_or_empty P d) (\<lambda>nvs.
        foldE (constant_var P vtype) st nvs))"

definition constant_vars ::
  "'f platform \<Rightarrow> 'f pyval \<Rightarrow> 'f build_state \<Rightarrow> 'f error + 'f build_state"
where
  "constant_vars P mapping st =
     ebind (py_get mapping ''constants'' (PDict [])) (\<lambda>c.
     ebind (py_get c ''variables'' (PDict [])) (\<lambda>vs.
     ebind (items_or_empty P vs) (\<lambda>tds.
     foldE (constant_vars_of_type P) st tds)))"

text \<open>Lines 136 to 151: the rules of \<^verbatim>\<open>variables\<close>.\<close>

definition var_rule ::
  "'f platform \<Rightarrow> 'f pydict \<Rightarrow> string \<Rightarrow> 'f build_state \<Rightarrow> string \<times> 'f pyval
     \<Rightarrow> 'f error + 'f build_state"
where
  "var_rule P external_flat vtype st r =
     (case st of (co, produced) \<Rightarrow>
      case r of (odm_name, spec) \<Rightarrow>
        ebind (rule_parts spec) (\<lambda>(src_key, cfg).
        ebind (key_in src_key external_flat) (\<lambda>present.
          if present then
            ebind (subscript external_flat src_key) (\<lambda>raw.
            ebind (apply_transform P raw cfg) (\<lambda>val.
            ebind (add_var P co vtype odm_name val) (\<lambda>co'.
            Inr (co', produced @ [odm_name]))))
          else if has_key cfg ''default'' then
            ebind (add_var P co vtype odm_name (cfg_get cfg ''default'')) (\<lambda>co'.
            Inr (co', produced @ [odm_name]))
          else Inr (co, produced))))"

definition var_rules_of_type ::
  "'f platform \<Rightarrow> 'f pydict \<Rightarrow> 'f build_state \<Rightarrow> string \<times> 'f pyval \<Rightarrow> 'f error + 'f build_state"
where
  "var_rules_of_type P external_flat st td =
     (case td of (vtype, spec_dict) \<Rightarrow>
        ebind (items_or_empty P spec_dict) (\<lambda>rules.
        foldE (var_rule P external_flat vtype) st rules))"

definition var_rules ::
  "'f platform \<Rightarrow> 'f pydict \<Rightarrow> 'f pyval \<Rightarrow> 'f build_state \<Rightarrow> 'f error + 'f build_state"
where
  "var_rules P external_flat mapping st =
     ebind (py_get mapping ''variables'' PNone) (\<lambda>vs.
     ebind (items_or_empty P vs) (\<lambda>tds.
     foldE (var_rules_of_type P external_flat) st tds))"

text \<open>Lines 154 to 156: an empty collection is removed.\<close>

definition drop_empty :: "'f platform \<Rightarrow> 'f pydict \<Rightarrow> string \<Rightarrow> 'f error + 'f pydict" where
  "drop_empty P co k =
     (case map_of co k of
        None \<Rightarrow> Inl PyKeyError
      | Some v \<Rightarrow> Inr (if \<not> truthy P v then AList.delete k co else co))"

text \<open>
  Line 159: the decision identifier is the argument, else the one of the request the
  controller holds, else a fresh one; \<open>fresh\<close> is \<^verbatim>\<open>uuid4().hex\<close> of this call.
\<close>

definition decision_id_of ::
  "'f platform \<Rightarrow> 'f pyval \<Rightarrow> string \<Rightarrow> 'f pyval \<Rightarrow> 'f error + 'f pyval"
where
  "decision_id_of P held_request fresh decision_id =
     (if truthy P decision_id then Inr decision_id
      else
        ebind (py_get (py_or P held_request (PDict [])) ''__DecisionID__'' PNone) (\<lambda>held.
        Inr (py_or P held (PStr (''Decision_'' @ take 12 fresh)))))"

text \<open>Lines 102 to 156: the dictionary \<^verbatim>\<open>co\<close> and the produced targets.\<close>

definition build_co ::
  "'f platform \<Rightarrow> 'f pydict \<Rightarrow> 'f pyval \<Rightarrow> 'f error + 'f build_state"
where
  "build_co P external_flat mapping =
     ebind (constant_fields P mapping) (\<lambda>co0.
     ebind (scalar_rules P external_flat mapping (co0, [])) (\<lambda>(co1, produced1).
     ebind (constant_vars P mapping (init_collections co1, produced1)) (\<lambda>st2.
     ebind (var_rules P external_flat mapping st2) (\<lambda>(co3, produced3).
     ebind (foldE (drop_empty P) co3 COLLECTION_KEYS) (\<lambda>co4.
     Inr (co4, produced3))))))"

definition build_by_odm_keys ::
  "'f platform \<Rightarrow> 'f pyval \<Rightarrow> string \<Rightarrow> 'f pydict \<Rightarrow> 'f pyval \<Rightarrow> 'f pyval
     \<Rightarrow> 'f error + ('f pyval \<times> string list)"
where
  "build_by_odm_keys P held_request fresh external_flat mapping decision_id =
     ebind (build_co P external_flat mapping) (\<lambda>(co, produced_targets).
     ebind (decision_id_of P held_request fresh decision_id) (\<lambda>dec_id.
     Inr (PDict [(''__DecisionID__'', dec_id), (''coRequest'', PDict co)], produced_targets)))"

subsection \<open>\<^verbatim>\<open>build_request_from_mapping_file\<close> and \<^verbatim>\<open>get_request_json\<close>\<close>








section \<open>A reference platform\<close>

text \<open>
  One instance of the platform, on which the controller can be run: floats are exact
  decimal numbers, strings are ASCII (whitespace and letters are the ASCII ones), a set
  is iterated in the order of its elements' last insertion. It covers the part of the built-ins that the examples of the
  specification use; what it leaves out is said at each function.
\<close>

subsection \<open>ASCII whitespace\<close>

text \<open>
  \<^verbatim>\<open>s.strip()\<close> on an ASCII string removes the leading and the trailing characters
  9 to 13 and 28 to 32.
\<close>

definition is_space :: "char \<Rightarrow> bool" where
  "is_space c = (let n = (of_char c :: nat) in (9 \<le> n \<and> n \<le> 13) \<or> (28 \<le> n \<and> n \<le> 32))"

definition ascii_strip :: "string \<Rightarrow> string" where
  "ascii_strip s = rev (dropWhile is_space (rev (dropWhile is_space s)))"

subsection \<open>Decimal numbers\<close>

text \<open>\<open>(m, e)\<close> is the number \<open>m / 10 ^ e\<close>, without trailing zeros in the fraction.\<close>

type_synonym dec = "int \<times> nat"

fun dec_norm :: "int \<Rightarrow> nat \<Rightarrow> dec" where
  "dec_norm m 0 = (m, 0)"
| "dec_norm m (Suc e) = (if m mod 10 = 0 then dec_norm (m div 10) e else (m, Suc e))"

definition dec_mul :: "dec \<Rightarrow> dec \<Rightarrow> dec" where
  "dec_mul a b = dec_norm (fst a * fst b) (snd a + snd b)"

definition dec_to_int :: "dec \<Rightarrow> int" where
  "dec_to_int a = sgn (fst a) * (\<bar>fst a\<bar> div 10 ^ snd a)"

definition is_digit :: "char \<Rightarrow> bool" where
  "is_digit c = (let n = (of_char c :: nat) in 48 \<le> n \<and> n \<le> 57)"

definition digit_val :: "char \<Rightarrow> nat" where
  "digit_val c = of_char c - 48"

fun nat_of_digits :: "nat \<Rightarrow> string \<Rightarrow> nat" where
  "nat_of_digits acc [] = acc"
| "nat_of_digits acc (c # cs) = nat_of_digits (10 * acc + digit_val c) cs"

text \<open>An optional sign, then the rest.\<close>

definition split_sign :: "string \<Rightarrow> bool \<times> string" where
  "split_sign s =
     (case s of
        [] \<Rightarrow> (False, [])
      | c # cs \<Rightarrow>
          (if c = CHR ''-'' then (True, cs) else if c = CHR ''+'' then (False, cs) else (False, s)))"

text \<open>
  \<^verbatim>\<open>int(s)\<close> for a decimal numeral with an optional sign, surrounded by whitespace
  (underscores between digits are left out).
\<close>

definition ref_int_of_str :: "string \<Rightarrow> int option" where
  "ref_int_of_str s =
     (case split_sign (ascii_strip s) of (neg, ds) \<Rightarrow>
        if ds \<noteq> [] \<and> list_all is_digit ds
        then Some (if neg then - int (nat_of_digits 0 ds) else int (nat_of_digits 0 ds))
        else None)"

text \<open>
  \<^verbatim>\<open>float(s)\<close> for a decimal numeral with an optional sign and an optional
  fraction, surrounded by whitespace (exponents, underscores, \<^verbatim>\<open>inf\<close> and \<^verbatim>\<open>nan\<close>
  are left out).
\<close>

definition ref_float_of_str :: "string \<Rightarrow> dec option" where
  "ref_float_of_str s =
     (case split_sign (ascii_strip s) of (neg, u) \<Rightarrow>
        let ip = takeWhile (\<lambda>c. c \<noteq> CHR ''.'') u;
            fp = drop 1 (dropWhile (\<lambda>c. c \<noteq> CHR ''.'') u)
        in if (ip \<noteq> [] \<or> fp \<noteq> []) \<and> list_all is_digit ip \<and> list_all is_digit fp
           then Some (dec_norm
                  (if neg then - int (nat_of_digits 0 (ip @ fp)) else int (nat_of_digits 0 (ip @ fp)))
                  (length fp))
           else None)"

subsection \<open>Printing\<close>

text \<open>The last \<open>w\<close> decimal digits of \<open>n\<close>.\<close>

fun pad :: "nat \<Rightarrow> nat \<Rightarrow> string" where
  "pad 0 n = []"
| "pad (Suc w) n = pad w (n div 10) @ [char_of (48 + n mod 10)]"

text \<open>The decimal digits of \<open>n\<close>.\<close>

function show_nat :: "nat \<Rightarrow> string" where
  "show_nat n =
     (if n < 10 then [char_of (48 + n)] else show_nat (n div 10) @ [char_of (48 + n mod 10)])"
  by pat_completeness auto
termination
  by (relation "measure id") auto

declare show_nat.simps [simp del]

definition show_int :: "int \<Rightarrow> string" where
  "show_int i = (if i < 0 then CHR ''-'' # show_nat (nat (- i)) else show_nat (nat i))"

text \<open>\<^verbatim>\<open>repr\<close> of a float in positional notation (the exponent notation is left out).\<close>

definition show_dec :: "dec \<Rightarrow> string" where
  "show_dec a =
     (let m = fst a; e = snd a; n = nat \<bar>m\<bar>
      in (if m < 0 then [CHR ''-''] else []) @ show_nat (n div 10 ^ e) @ [CHR ''.'']
           @ (if e = 0 then [CHR ''0''] else pad e (n mod 10 ^ e)))"

definition show_date :: "date \<Rightarrow> string" where
  "show_date d = pad 4 (year d) @ [CHR ''-''] @ pad 2 (month d) @ [CHR ''-''] @ pad 2 (day d)"

definition show_time :: "nat \<Rightarrow> string" where
  "show_time t =
     (let us = t mod 1000000; sec = t div 1000000
      in pad 2 (sec div 3600) @ [CHR '':''] @ pad 2 (sec div 60 mod 60) @ [CHR '':'']
           @ pad 2 (sec mod 60) @ (if us = 0 then [] else CHR ''.'' # pad 6 us))"

fun join :: "string \<Rightarrow> string list \<Rightarrow> string" where
  "join sep [] = []"
| "join sep [x] = x"
| "join sep (x # y # ys) = x @ sep @ join sep (y # ys)"

text \<open>
  \<^verbatim>\<open>repr(v)\<close>: a string is put between single quotes (escapes are left out);
  \<^verbatim>\<open>str(v)\<close> differs for a string, a date and a datetime.
\<close>

fun ref_repr :: "dec pyval \<Rightarrow> string"
  and ref_repr_list :: "dec pyval list \<Rightarrow> string list"
  and ref_repr_items :: "(string \<times> dec pyval) list \<Rightarrow> string list"
where
  "ref_repr PNone = ''None''"
| "ref_repr (PBool b) = (if b then ''True'' else ''False'')"
| "ref_repr (PInt i) = show_int i"
| "ref_repr (PFloat x) = show_dec x"
| "ref_repr (PStr s) = [CHR 0x27] @ s @ [CHR 0x27]"
| "ref_repr (PList xs) = ''['' @ join '', '' (ref_repr_list xs) @ '']''"
| "ref_repr (PDict d) = ''{'' @ join '', '' (ref_repr_items d) @ ''}''"
| "ref_repr (PDate d) =
     ''datetime.date('' @ join '', '' [show_nat (year d), show_nat (month d), show_nat (day d)] @ '')''"
| "ref_repr (PDateTime d t) =
     ''datetime.datetime('' @ join '', ''
        [show_nat (year d), show_nat (month d), show_nat (day d),
         show_nat (t div 3600000000), show_nat (t div 60000000 mod 60)] @ '')''"
| "ref_repr_list [] = []"
| "ref_repr_list (x # xs) = ref_repr x # ref_repr_list xs"
| "ref_repr_items [] = []"
| "ref_repr_items (kv # kvs) =
     ([CHR 0x27] @ fst kv @ [CHR 0x27] @ '': '' @ ref_repr (snd kv)) # ref_repr_items kvs"

definition ref_str :: "dec pyval \<Rightarrow> string" where
  "ref_str v =
     (case v of
        PStr s \<Rightarrow> s
      | PDate d \<Rightarrow> show_date d
      | PDateTime d t \<Rightarrow> show_date d @ '' '' @ show_time t
      | _ \<Rightarrow> ref_repr v)"

subsection \<open>ASCII case\<close>

definition ascii_upper :: "string \<Rightarrow> string" where
  "ascii_upper s =
     map (\<lambda>c. let n = (of_char c :: nat) in if 97 \<le> n \<and> n \<le> 122 then char_of (n - 32) else c) s"

definition ascii_lower :: "string \<Rightarrow> string" where
  "ascii_lower s =
     map (\<lambda>c. let n = (of_char c :: nat) in if 65 \<le> n \<and> n \<le> 90 then char_of (n + 32) else c) s"

subsection \<open>Dates\<close>

definition is_leap :: "nat \<Rightarrow> bool" where
  "is_leap y = (y mod 4 = 0 \<and> (y mod 100 \<noteq> 0 \<or> y mod 400 = 0))"

definition days_in_month :: "nat \<Rightarrow> nat \<Rightarrow> nat" where
  "days_in_month y m =
     (if m = 2 then (if is_leap y then 29 else 28)
      else if m = 4 \<or> m = 6 \<or> m = 9 \<or> m = 11 then 30 else 31)"

definition valid_date :: "nat \<Rightarrow> nat \<Rightarrow> nat \<Rightarrow> bool" where
  "valid_date y m d =
     (1 \<le> y \<and> y \<le> 9999 \<and> 1 \<le> m \<and> m \<le> 12 \<and> 1 \<le> d \<and> d \<le> days_in_month y m)"

text \<open>
  \<^verbatim>\<open>d.strftime(fmt)\<close> for the directives \<^verbatim>\<open>%Y\<close>, \<^verbatim>\<open>%m\<close>, \<^verbatim>\<open>%d\<close> and
  \<^verbatim>\<open>%%\<close>; any other text is copied.
\<close>

fun ref_strftime :: "date \<Rightarrow> string \<Rightarrow> string" where
  "ref_strftime d [] = []"
| "ref_strftime d [c] = [c]"
| "ref_strftime d (c # x # r) =
     (if c = CHR ''%'' then
        (if x = CHR ''Y'' then pad 4 (year d) @ ref_strftime d r
         else if x = CHR ''m'' then pad 2 (month d) @ ref_strftime d r
         else if x = CHR ''d'' then pad 2 (day d) @ ref_strftime d r
         else if x = CHR ''%'' then CHR ''%'' # ref_strftime d r
         else c # x # ref_strftime d r)
      else c # ref_strftime d (x # r))"

text \<open>\<^verbatim>\<open>date.fromisoformat(s)\<close> for the format \<^verbatim>\<open>YYYY-MM-DD\<close>.\<close>

definition ref_fromisoformat :: "string \<Rightarrow> date option" where
  "ref_fromisoformat s =
     (if length s = 10 \<and> s ! 4 = CHR ''-'' \<and> s ! 7 = CHR ''-''
         \<and> list_all is_digit (take 4 s) \<and> list_all is_digit (take 2 (drop 5 s))
         \<and> list_all is_digit (drop 8 s)
      then
        (let y = nat_of_digits 0 (take 4 s);
             m = nat_of_digits 0 (take 2 (drop 5 s));
             d = nat_of_digits 0 (drop 8 s)
         in if valid_date y m d then Some (Date y m d) else None)
      else None)"

text \<open>
  \<^verbatim>\<open>datetime.strptime(s, fmt).date()\<close> for formats made of \<^verbatim>\<open>%d\<close>, \<^verbatim>\<open>%m\<close>,
  \<^verbatim>\<open>%Y\<close>, \<^verbatim>\<open>%%\<close>, whitespace and literal characters, each directive at most
  once; any other directive is refused. The format becomes a regular expression, as in
  the library: \<^verbatim>\<open>%d\<close> is \<^verbatim>\<open>3[0-1]|[1-2]\d|0[1-9]|[1-9]| [1-9]\<close>, \<^verbatim>\<open>%m\<close> is
  \<^verbatim>\<open>1[0-2]|0[1-9]|[1-9]\<close>, \<^verbatim>\<open>%Y\<close> is four digits, whitespace is \<^verbatim>\<open>\s+\<close>, letters
  match in either case. The first match of the expression must end where the string
  ends, and the date must exist.
\<close>

datatype fmt_item = FDay | FMonth | FYear | FSpace | FLit char

definition directive :: "char \<Rightarrow> fmt_item option" where
  "directive x =
     (if x = CHR ''d'' then Some FDay
      else if x = CHR ''m'' then Some FMonth
      else if x = CHR ''Y'' then Some FYear
      else if x = CHR ''%'' then Some (FLit (CHR ''%''))
      else None)"

fun parse_format :: "string \<Rightarrow> fmt_item list option" where
  "parse_format [] = Some []"
| "parse_format [c] =
     (if c = CHR ''%'' then None else if is_space c then Some [FSpace] else Some [FLit c])"
| "parse_format (c # x # r) =
     (if c = CHR ''%'' then
        (case directive x of
           None \<Rightarrow> None
         | Some it \<Rightarrow> map_option (Cons it) (parse_format r))
      else if is_space c then
        (case parse_format (x # r) of
           None \<Rightarrow> None
         | Some [] \<Rightarrow> Some [FSpace]
         | Some (it # its) \<Rightarrow> Some (if it = FSpace then it # its else FSpace # it # its))
      else map_option (Cons (FLit c)) (parse_format (x # r)))"

text \<open>
  The ways an item can match a prefix of the string, in the order the regular
  expression tries them: the number read (0 for text) and the rest of the string.
\<close>

definition num_alts :: "nat \<Rightarrow> string \<Rightarrow> (nat \<times> string) list" where
  "num_alts hi s =
     (case s of
        c1 # c2 # r \<Rightarrow>
          (let n = 10 * digit_val c1 + digit_val c2
           in if is_digit c1 \<and> is_digit c2 \<and> 1 \<le> n \<and> n \<le> hi then [(n, r)] else [])
      | _ \<Rightarrow> [])
     @ (case s of
          c1 # r \<Rightarrow> (if is_digit c1 \<and> 1 \<le> digit_val c1 then [(digit_val c1, r)] else [])
        | [] \<Rightarrow> [])"

fun item_alts :: "fmt_item \<Rightarrow> string \<Rightarrow> (nat \<times> string) list" where
  "item_alts FDay s =
     num_alts 31 s
     @ (case s of
          c1 # c2 # r \<Rightarrow>
            (if c1 = CHR '' '' \<and> is_digit c2 \<and> 1 \<le> digit_val c2 then [(digit_val c2, r)] else [])
        | _ \<Rightarrow> [])"
| "item_alts FMonth s = num_alts 12 s"
| "item_alts FYear s =
     (if 4 \<le> length s \<and> list_all is_digit (take 4 s)
      then [(nat_of_digits 0 (take 4 s), drop 4 s)] else [])"
| "item_alts FSpace s =
     map (\<lambda>k. (0, drop k s)) (rev [1..<Suc (length (takeWhile is_space s))])"
| "item_alts (FLit c) s =
     (case s of
        x # r \<Rightarrow> (if ascii_lower [x] = ascii_lower [c] then [(0, r)] else [])
      | [] \<Rightarrow> [])"

fun match_items :: "fmt_item list \<Rightarrow> string \<Rightarrow> ((fmt_item \<times> nat) list \<times> string) list" where
  "match_items [] s = [([], s)]"
| "match_items (it # its) s =
     concat (map (\<lambda>vr. map (\<lambda>m. ((it, fst vr) # fst m, snd m)) (match_items its (snd vr)))
       (item_alts it s))"

definition ref_strptime :: "string \<Rightarrow> string \<Rightarrow> date option" where
  "ref_strptime s f =
     (case parse_format f of
        None \<Rightarrow> None
      | Some its \<Rightarrow>
          if 1 < count_list its FDay \<or> 1 < count_list its FMonth \<or> 1 < count_list its FYear
          then None
          else
            (case match_items its s of
               [] \<Rightarrow> None
             | m # ms \<Rightarrow>
                 if snd m \<noteq> [] then None
                 else
                   (let y = (case map_of (fst m) FYear of Some n \<Rightarrow> n | None \<Rightarrow> 1900);
                        mo = (case map_of (fst m) FMonth of Some n \<Rightarrow> n | None \<Rightarrow> 1);
                        d = (case map_of (fst m) FDay of Some n \<Rightarrow> n | None \<Rightarrow> 1)
                    in if valid_date y mo d then Some (Date y mo d) else None)))"

subsection \<open>JSON text\<close>

definition hex_digit :: "nat \<Rightarrow> char" where
  "hex_digit k = (if k < 10 then char_of (48 + k) else char_of (87 + k))"

definition json_escape :: "char \<Rightarrow> string" where
  "json_escape c =
     (let n = (of_char c :: nat) in
      if n = 34 then [CHR 0x5C, CHR 0x22]
      else if n = 92 then [CHR 0x5C, CHR 0x5C]
      else if n = 10 then [CHR 0x5C, CHR ''n'']
      else if n = 13 then [CHR 0x5C, CHR ''r'']
      else if n = 9 then [CHR 0x5C, CHR ''t'']
      else if n = 8 then [CHR 0x5C, CHR ''b'']
      else if n = 12 then [CHR 0x5C, CHR ''f'']
      else if n < 32 then
        [CHR 0x5C, CHR ''u'', CHR ''0'', CHR ''0'', hex_digit (n div 16), hex_digit (n mod 16)]
      else [c])"

definition json_string :: "string \<Rightarrow> string" where
  "json_string s = [CHR 0x22] @ concat (map json_escape s) @ [CHR 0x22]"

definition newline_indent :: "nat \<Rightarrow> nat \<Rightarrow> string" where
  "newline_indent ind lvl = CHR 0x0A # replicate (ind * lvl) (CHR '' '')"

text \<open>
  \<^verbatim>\<open>json.dumps(v, ensure_ascii=False, indent=n)\<close>: a date or a datetime is not
  serializable.
\<close>

fun ref_dumps :: "nat \<Rightarrow> nat \<Rightarrow> dec pyval \<Rightarrow> string option"
  and ref_dumps_list :: "nat \<Rightarrow> nat \<Rightarrow> dec pyval list \<Rightarrow> string list option"
  and ref_dumps_items :: "nat \<Rightarrow> nat \<Rightarrow> (string \<times> dec pyval) list \<Rightarrow> string list option"
where
  "ref_dumps ind lvl PNone = Some ''null''"
| "ref_dumps ind lvl (PBool b) = Some (if b then ''true'' else ''false'')"
| "ref_dumps ind lvl (PInt i) = Some (show_int i)"
| "ref_dumps ind lvl (PFloat x) = Some (show_dec x)"
| "ref_dumps ind lvl (PStr s) = Some (json_string s)"
| "ref_dumps ind lvl (PList xs) =
     (if xs = [] then Some ''[]''
      else
        (case ref_dumps_list ind (Suc lvl) xs of
           None \<Rightarrow> None
         | Some parts \<Rightarrow>
             Some (''['' @ newline_indent ind (Suc lvl)
                   @ join ('','' @ newline_indent ind (Suc lvl)) parts
                   @ newline_indent ind lvl @ '']'')))"
| "ref_dumps ind lvl (PDict d) =
     (if d = [] then Some ''{}''
      else
        (case ref_dumps_items ind (Suc lvl) d of
           None \<Rightarrow> None
         | Some parts \<Rightarrow>
             Some (''{'' @ newline_indent ind (Suc lvl)
                   @ join ('','' @ newline_indent ind (Suc lvl)) parts
                   @ newline_indent ind lvl @ ''}'')))"
| "ref_dumps ind lvl (PDate d) = None"
| "ref_dumps ind lvl (PDateTime d t) = None"
| "ref_dumps_list ind lvl [] = Some []"
| "ref_dumps_list ind lvl (x # xs) =
     (case ref_dumps ind lvl x of
        None \<Rightarrow> None
      | Some p \<Rightarrow> map_option (Cons p) (ref_dumps_list ind lvl xs))"
| "ref_dumps_items ind lvl [] = Some []"
| "ref_dumps_items ind lvl (kv # kvs) =
     (case ref_dumps ind lvl (snd kv) of
        None \<Rightarrow> None
      | Some p \<Rightarrow>
          map_option (Cons (json_string (fst kv) @ '': '' @ p)) (ref_dumps_items ind lvl kvs))"

subsection \<open>The platform\<close>

definition ref_platform :: "dec platform" where
  "ref_platform =
     \<lparr> float_of_str = ref_float_of_str,
       float_of_int = (\<lambda>i. Some (i, 0)),
       int_of_str = ref_int_of_str,
       int_of_float = (\<lambda>a. Some (dec_to_int a)),
       float_mul = dec_mul,
       float_nonzero = (\<lambda>a. fst a \<noteq> 0),
       str_of = ref_str,
       str_strip = ascii_strip,
       str_upper = ascii_upper,
       str_lower = ascii_lower,
       strptime = ref_strptime,
       fromisoformat = ref_fromisoformat,
       strftime = ref_strftime,
       set_iter = remdups,
       json_dumps = (\<lambda>v indent. ref_dumps (nat indent) 0 v) \<rparr>"

section \<open>The mapping as the rules read it\<close>

text \<open>
  The parts of a mapping document that the loops of \<^verbatim>\<open>_build_by_odm_keys\<close> go
  through, as total functions: \<^verbatim>\<open>mapping.get(k)\<close>, and the items of
  \<^verbatim>\<open>(v or {})\<close> (empty where the code would raise).
\<close>

definition section_of :: "'f pyval \<Rightarrow> string \<Rightarrow> 'f pyval" where
  "section_of mapping k = (case py_get mapping k PNone of Inr v \<Rightarrow> v | Inl e \<Rightarrow> PNone)"

definition items_of :: "'f platform \<Rightarrow> 'f pyval \<Rightarrow> 'f pydict" where
  "items_of P v = (case items_or_empty P v of Inr d \<Rightarrow> d | Inl e \<Rightarrow> [])"

text \<open>
  A rule resolves on a record when its source key is a key of the record, or when it
  has a default.
\<close>

definition resolves :: "'f pydict \<Rightarrow> 'f pyval \<Rightarrow> bool" where
  "resolves external_flat spec =
     (case rule_parts spec of
        Inr (src_key, cfg) \<Rightarrow> key_in src_key external_flat = Inr True \<or> has_key cfg ''default''
      | Inl e \<Rightarrow> False)"

definition produced_by_rules :: "'f pydict \<Rightarrow> 'f pydict \<Rightarrow> string list" where
  "produced_by_rules external_flat rules =
     map fst (filter (\<lambda>r. resolves external_flat (snd r)) rules)"

text \<open>
  The targets a build records as produced, in order: the scalar rules that resolve,
  every constant of \<^verbatim>\<open>constants.variables\<close>, the variable rules that resolve.
\<close>

definition expected_produced :: "'f platform \<Rightarrow> 'f pydict \<Rightarrow> 'f pyval \<Rightarrow> string list" where
  "expected_produced P external_flat mapping =
     produced_by_rules external_flat (items_of P (section_of mapping ''co_fields''))
     @ concat (map (\<lambda>td. map fst (items_of P (snd td)))
         (items_of P (section_of (section_of mapping ''constants'') ''variables'')))
     @ concat (map (\<lambda>td. produced_by_rules external_flat (items_of P (snd td)))
         (items_of P (section_of mapping ''variables'')))"

text \<open>The entries of a typed collection of \<^verbatim>\<open>co\<close> (none when the key is absent).\<close>

definition collection :: "'f pydict \<Rightarrow> string \<Rightarrow> 'f pyval list" where
  "collection co key = (case map_of co key of Some (PList xs) \<Rightarrow> xs | _ \<Rightarrow> [])"

text \<open>The names of the entries of a collection.\<close>

definition entry_names :: "'f pyval list \<Rightarrow> 'f pyval list" where
  "entry_names es = map (\<lambda>e. case e of PDict d \<Rightarrow> cfg_get d ''name'' | _ \<Rightarrow> PNone) es"

section \<open>Example documents\<close>

text \<open>The mapping of the docstring of \<^verbatim>\<open>build_request_from_mapping_file\<close>.\<close>

definition demo_mapping :: "dec pyval" where
  "demo_mapping = PDict
     [(''co_fields'', PDict
        [(''customerType'', PDict
           [(''from'', PStr ''tipo_cliente''),
            (''map_from'', PDict [(''P'', PStr ''PARTICULAR'')])])]),
      (''variables'', PDict [(''double'', PDict [(''loanAmount'', PDict [(''from'', PStr ''monto'')])])]),
      (''constants'', PDict
        [(''co_fields'', PDict [(''country'', PStr ''ES'')]),
         (''variables'', PDict [(''string'', PDict [(''channel'', PStr ''WEB'')])])]),
      (''required_odm'', PList [PStr ''loanAmount''])]"

definition demo_items :: "dec pydict" where
  "demo_items = [(''tipo_cliente'', PStr ''P''), (''monto'', PStr ''100'')]"


text \<open>A mapping with one constant variable and no rule.\<close>

definition only_constant :: "dec pyval" where
  "only_constant = PDict
     [(''constants'', PDict [(''variables'', PDict [(''string'', PDict [(''channel'', PStr ''WEB'')])])])]"

definition demo_co :: "dec pydict" where
  "demo_co =
     [(''country'', PStr ''ES''),
      (''customerType'', PStr ''PARTICULAR''),
      (''doubleVariables'', PList [var_entry ''loanAmount'' (PFloat (100, 0))]),
      (''stringVariables'', PList [var_entry ''channel'' (PStr ''WEB'')])]"

definition demo_request :: "dec pyval" where
  "demo_request = PDict
     [(''__DecisionID__'', PStr ''Decision_0123456789ab''),
      (''coRequest'', PDict
        [(''country'', PStr ''ES''),
         (''customerType'', PStr ''PARTICULAR''),
         (''doubleVariables'', PList [var_entry ''loanAmount'' (PFloat (100, 0))]),
         (''stringVariables'', PList [var_entry ''channel'' (PStr ''WEB'')])])]"




text \<open>Every collection of the first state is an initial segment of the same collection of the second.\<close>

definition grows :: "'f build_state \<Rightarrow> 'f build_state \<Rightarrow> bool" where
  "grows st st' = (\<forall>k. prefix (collection (fst st) k) (collection (fst st') k))"

text \<open>A mapping whose constant variable and whose rule have the same name and type.\<close>

definition same_name :: "dec pyval" where
  "same_name = PDict
     [(''constants'', PDict [(''variables'', PDict [(''string'', PDict [(''segment'', PStr ''A'')])])]),
      (''variables'', PDict [(''string'', PDict [(''segment'', PStr ''seg'')])])]"

text \<open>A mapping whose scalar rule has the name of a collection.\<close>

definition reserved_name :: "dec pyval" where
  "reserved_name = PDict [(''co_fields'', PDict [(''dateVariables'', PStr ''k'')])]"

text \<open>A mapping with a scalar rule and a variable rule on the same source key.\<close>

definition null_rules :: "dec pyval" where
  "null_rules = PDict
     [(''co_fields'', PDict [(''comment'', PStr ''k'')]),
      (''variables'', PDict [(''string'', PDict [(''note'', PStr ''k'')])])]"

text \<open>The second state has under the key what the first has.\<close>

definition keeps :: "string \<Rightarrow> 'f build_state \<Rightarrow> 'f build_state \<Rightarrow> bool" where
  "keeps k st st' = (map_of (fst st') k = map_of (fst st) k)"

text \<open>The collection to which \<^verbatim>\<open>_add_var\<close> appends a variable of a type.\<close>

definition collection_of_type :: "string \<Rightarrow> string option" where
  "collection_of_type vtype =
     (if vtype = ''date'' then Some ''dateVariables''
      else if vtype = ''double'' then Some ''doubleVariables''
      else if vtype = ''integer'' then Some ''integerVariables''
      else if vtype = ''string'' then Some ''stringVariables''
      else if vtype = ''list_double'' then Some ''listOfDoubleVariables''
      else None)"

text \<open>
  The names a group of one type can give to the entries of a collection: its own names
  when the type is the collection's, none otherwise.
\<close>

definition names_for :: "string \<Rightarrow> string \<Rightarrow> 'f pydict \<Rightarrow> 'f pyval list" where
  "names_for key vtype members =
     (if collection_of_type vtype = Some key then map (\<lambda>nv. PStr (fst nv)) members else [])"

text \<open>
  The keys of a typed section and of each of its groups are distinct, as the keys of
  dictionaries are.
\<close>

definition distinct_keys :: "'f platform \<Rightarrow> 'f pyval \<Rightarrow> bool" where
  "distinct_keys P sect =
     (distinct (map fst (items_of P sect))
      \<and> list_all (\<lambda>td. distinct (map fst (items_of P (snd td)))) (items_of P sect))"

section \<open>Properties\<close>

subsection \<open>Errors\<close>

lemma ebind_simps [simp]: "ebind (Inl e) f = Inl e" "ebind (Inr x) f = f x"
  by (simp_all add: ebind_def)

lemma ebind_Inr_iff: "ebind m f = Inr y \<longleftrightarrow> (\<exists>x. m = Inr x \<and> f x = Inr y)"
  by (cases m) simp_all


subsection \<open>Date normalization\<close>

text \<open>
  Claim C9. Date normalization maps \<^verbatim>\<open>None\<close> and the empty string to \<^verbatim>\<open>None\<close>, on
  every platform and for every input format; on the reference platform the string
  \<^verbatim>\<open>15/08/2023\<close> with the input format \<^verbatim>\<open>%d/%m/%Y\<close> normalizes to \<^verbatim>\<open>2023-08-15\<close>,
  and the string \<^verbatim>\<open>2021-05-10\<close> with no input format normalizes to \<^verbatim>\<open>2021-05-10\<close>.
\<close>

theorem date_normalization_examples:
  "normalize_date P PNone fmt = Inr PNone
   \<and> normalize_date P (PStr []) fmt = Inr PNone
   \<and> normalize_date ref_platform (PStr ''15/08/2023'') (PStr ''%d/%m/%Y'')
       = Inr (PStr ''2023-08-15'')
   \<and> normalize_date ref_platform (PStr ''2021-05-10'') PNone = Inr (PStr ''2021-05-10'')"
proof -
  have a: "normalize_date P PNone fmt = Inr PNone"
    by (simp add: normalize_date_def)
  have b: "normalize_date P (PStr []) fmt = Inr PNone"
    by (simp add: normalize_date_def)
  have c: "normalize_date ref_platform (PStr ''15/08/2023'') (PStr ''%d/%m/%Y'')
             = Inr (PStr ''2023-08-15'')"
    by code_simp
  have d: "normalize_date ref_platform (PStr ''2021-05-10'') PNone = Inr (PStr ''2021-05-10'')"
    by code_simp
  from a b c d show ?thesis by simp
qed

theorem date_normalization_witness:
  "normalize_date ref_platform PNone (PStr ''%d/%m/%Y'') = Inr PNone
   \<and> normalize_date ref_platform (PStr []) (PStr ''%d/%m/%Y'') = Inr PNone
   \<and> normalize_date ref_platform (PStr ''15/08/2023'') (PStr ''%d/%m/%Y'')
       = Inr (PStr ''2023-08-15'')
   \<and> normalize_date ref_platform (PStr ''2021-05-10'') PNone = Inr (PStr ''2021-05-10'')"
  by (rule date_normalization_examples)

subsection \<open>Serializing before a build\<close>





subsection \<open>Repeated builds\<close>





lemma build_by_odm_keys_Inr:
  "build_by_odm_keys P held u ext m d = Inr (rq, pts) \<longleftrightarrow>
     (\<exists>co dec. build_co P ext m = Inr (co, pts) \<and> decision_id_of P held u d = Inr dec
        \<and> rq = PDict [(''__DecisionID__'', dec), (''coRequest'', PDict co)])"
  by (auto simp: build_by_odm_keys_def ebind_Inr_iff)










subsection \<open>Required targets\<close>






subsection \<open>The transform pipeline\<close>











subsection \<open>Typed variables\<close>

lemma mapE_Inr_D: "mapE f xs = Inr ys \<Longrightarrow> list_all2 (\<lambda>x y. f x = Inr y) xs ys"
  by (induction xs arbitrary: ys) (auto split: sum.splits)

lemma mapE_Inr_I: "list_all2 (\<lambda>x y. f x = Inr y) xs ys \<Longrightarrow> mapE f xs = Inr ys"
  by (induction xs ys rule: list_all2_induct) simp_all

lemma mapE_Inr_iff: "mapE f xs = Inr ys \<longleftrightarrow> list_all2 (\<lambda>x y. f x = Inr y) xs ys"
  by (blast intro: mapE_Inr_D mapE_Inr_I)

lemma mapE_Inl_iff: "(\<exists>e. mapE f xs = Inl e) \<longleftrightarrow> (\<exists>x\<in>set xs. \<exists>e. f x = Inl e)"
  by (induction xs) (auto split: sum.splits)

lemma mapE_Inl_kind: "mapE f xs = Inl e \<Longrightarrow> \<exists>x\<in>set xs. f x = Inl e"
  by (induction xs) (auto split: sum.splits)

lemma py_float_Inl: "py_float P v = Inl e \<Longrightarrow> e = CoercionError"
  by (cases v) (auto simp: py_float_def split: option.splits)

lemma add_var_list_double:
  "v \<noteq> PNone \<Longrightarrow>
   add_var P co ''list_double'' name v =
     ebind (list_double_values P v) (\<lambda>vals.
       append_var co ''listOfDoubleVariables'' name (Inr (PList (map PFloat vals))))"
  by (simp add: add_var_def)

lemma append_var_Inr:
  "setdefault_list co key = Inr es \<Longrightarrow>
   append_var co key name (Inr v) = Inr (AList.update key (PList (es @ [var_entry name v])) co)"
  by (simp add: append_var_def)

text \<open>
  Claim C3, as the code has it. For a value that is not \<^verbatim>\<open>None\<close>, added with the
  type \<^verbatim>\<open>list_double\<close> to a dictionary whose \<^verbatim>\<open>listOfDoubleVariables\<close> is a list (or
  absent): a list is coerced element by element, and the call fails, with a coercion
  error, exactly when some element is not convertible; a value that is not a list is
  not wrapped but iterated: a string gives its characters, each coerced on its own, a
  value that is false gives the empty list, and a number, a boolean or a date that is
  true is not iterable, so the call fails although the value may be convertible.
\<close>

theorem list_double_coercion:
  assumes slot: "setdefault_list co ''listOfDoubleVariables'' = Inr es"
  shows
    "(list_all2 (\<lambda>x y. py_float P x = Inr y) xs ys \<longrightarrow>
        add_var P co ''list_double'' name (PList xs)
          = Inr (AList.update ''listOfDoubleVariables''
                   (PList (es @ [var_entry name (PList (map PFloat ys))])) co))
     \<and> ((\<exists>e. add_var P co ''list_double'' name (PList xs) = Inl e)
          \<longleftrightarrow> (\<exists>x\<in>set xs. \<exists>e. py_float P x = Inl e))
     \<and> (add_var P co ''list_double'' name (PList xs) = Inl e \<longrightarrow> e = CoercionError)
     \<and> (s \<noteq> [] \<longrightarrow>
          add_var P co ''list_double'' name (PStr s)
            = ebind (mapE (py_float P) (map (\<lambda>c. PStr [c]) s)) (\<lambda>vals.
                Inr (AList.update ''listOfDoubleVariables''
                       (PList (es @ [var_entry name (PList (map PFloat vals))])) co)))
     \<and> (v \<noteq> PNone \<and> \<not> truthy P v \<and> (\<forall>zs. v \<noteq> PList zs) \<longrightarrow>
          add_var P co ''list_double'' name v
            = Inr (AList.update ''listOfDoubleVariables''
                     (PList (es @ [var_entry name (PList [])])) co))
     \<and> (truthy P v \<and> (\<forall>zs. v \<noteq> PList zs) \<and> (\<forall>t. v \<noteq> PStr t) \<and> (\<forall>d. v \<noteq> PDict d) \<longrightarrow>
          add_var P co ''list_double'' name v = Inl PyTypeError)"
proof (intro conjI impI)
  assume "list_all2 (\<lambda>x y. py_float P x = Inr y) xs ys"
  then have "mapE (py_float P) xs = Inr ys" by (simp add: mapE_Inr_iff)
  then show "add_var P co ''list_double'' name (PList xs)
          = Inr (AList.update ''listOfDoubleVariables''
                   (PList (es @ [var_entry name (PList (map PFloat ys))])) co)"
    by (simp add: add_var_list_double list_double_values_def append_var_Inr [OF slot])
next
  have "(\<exists>e. add_var P co ''list_double'' name (PList xs) = Inl e)
          \<longleftrightarrow> (\<exists>e. mapE (py_float P) xs = Inl e)"
    by (cases "mapE (py_float P) xs")
      (simp_all add: add_var_list_double list_double_values_def append_var_Inr [OF slot])
  then show "(\<exists>e. add_var P co ''list_double'' name (PList xs) = Inl e)
          \<longleftrightarrow> (\<exists>x\<in>set xs. \<exists>e. py_float P x = Inl e)"
    by (simp add: mapE_Inl_iff)
next
  assume "add_var P co ''list_double'' name (PList xs) = Inl e"
  then have "mapE (py_float P) xs = Inl e"
    by (cases "mapE (py_float P) xs")
      (simp_all add: add_var_list_double list_double_values_def append_var_Inr [OF slot])
  then show "e = CoercionError"
    by (blast dest: mapE_Inl_kind py_float_Inl)
next
  assume "s \<noteq> []"
  then show "add_var P co ''list_double'' name (PStr s)
            = ebind (mapE (py_float P) (map (\<lambda>c. PStr [c]) s)) (\<lambda>vals.
                Inr (AList.update ''listOfDoubleVariables''
                       (PList (es @ [var_entry name (PList (map PFloat vals))])) co))"
    by (simp add: add_var_list_double list_double_values_def py_or_def py_iter_def
        append_var_Inr [OF slot])
next
  assume "v \<noteq> PNone \<and> \<not> truthy P v \<and> (\<forall>zs. v \<noteq> PList zs)"
  then show "add_var P co ''list_double'' name v
            = Inr (AList.update ''listOfDoubleVariables''
                     (PList (es @ [var_entry name (PList [])])) co)"
    by (cases v)
      (simp_all add: add_var_list_double list_double_values_def py_or_def py_iter_def
        append_var_Inr [OF slot])
next
  assume "truthy P v \<and> (\<forall>zs. v \<noteq> PList zs) \<and> (\<forall>t. v \<noteq> PStr t) \<and> (\<forall>d. v \<noteq> PDict d)"
  then show "add_var P co ''list_double'' name v = Inl PyTypeError"
    by (cases v)
      (simp_all add: add_var_list_double list_double_values_def py_or_def py_iter_def)
qed

theorem list_double_coercion_witness:
  "add_var ref_platform [(''listOfDoubleVariables'', PList [])] ''list_double'' ''plan''
     (PList [PStr ''1'', PStr ''2'', PStr ''3''])
     = Inr [(''listOfDoubleVariables'',
             PList [var_entry ''plan'' (PList [PFloat (1, 0), PFloat (2, 0), PFloat (3, 0)])])]
   \<and> add_var ref_platform [(''listOfDoubleVariables'', PList [])] ''list_double'' ''plan''
       (PInt 5)
     = Inl PyTypeError"
proof -
  let ?co = "[(''listOfDoubleVariables'', PList [])] :: dec pydict"
  have slot: "setdefault_list ?co ''listOfDoubleVariables'' = Inr []"
    by code_simp
  have conv: "list_all2 (\<lambda>x y. py_float ref_platform x = Inr y)
                [PStr ''1'', PStr ''2'', PStr ''3''] [(1, 0), (2, 0), (3, 0)]"
    by (simp add: py_float_def ref_platform_def ref_float_of_str_def split_sign_def ascii_strip_def
        is_space_def is_digit_def digit_val_def)
  have scalar: "truthy ref_platform (PInt 5) \<and> (\<forall>zs. PInt 5 \<noteq> (PList zs :: dec pyval))
      \<and> (\<forall>t. PInt 5 \<noteq> (PStr t :: dec pyval)) \<and> (\<forall>d. PInt 5 \<noteq> (PDict d :: dec pyval))"
    by simp
  from list_double_coercion [OF slot, where P = ref_platform and name = "''plan''"
      and xs = "[PStr ''1'', PStr ''2'', PStr ''3'']" and ys = "[(1, 0), (2, 0), (3, 0)]"
      and v = "PInt 5"]
  show ?thesis using conv scalar by simp
qed

text \<open>
  The claim as stated fails: the integer 5 is convertible to a float, but it is not
  wrapped, and adding it raises a type error; the string \<^verbatim>\<open>12\<close>, which converts to
  12.0, is added as the list of its characters' values, 1.0 and 2.0.
\<close>

theorem list_double_scalar_not_wrapped:
  "add_var ref_platform [(''listOfDoubleVariables'', PList [])] ''list_double'' ''x'' (PInt 5)
     = Inl PyTypeError
   \<and> py_float ref_platform (PInt 5) = Inr (5, 0)
   \<and> add_var ref_platform [(''listOfDoubleVariables'', PList [])] ''list_double'' ''x''
       (PStr ''12'')
     = Inr [(''listOfDoubleVariables'',
             PList [var_entry ''x'' (PList [PFloat (1, 0), PFloat (2, 0)])])]
   \<and> py_float ref_platform (PStr ''12'') = Inr (12, 0)"
  by code_simp

subsection \<open>Loops\<close>

lemma foldE_rel:
  assumes step: "\<And>s x s'. x \<in> set xs \<Longrightarrow> f s x = Inr s' \<Longrightarrow> R s s'"
    and refl: "\<And>s. R s s"
    and trans: "\<And>a b c. R a b \<Longrightarrow> R b c \<Longrightarrow> R a c"
    and run: "foldE f s xs = Inr s'"
  shows "R s s'"
  using step run
proof (induction xs arbitrary: s)
  case Nil
  then show ?case by (simp add: refl)
next
  case (Cons x xs)
  from Cons.prems(2) obtain s1 where s1: "f s x = Inr s1" and rest: "foldE f s1 xs = Inr s'"
    by (auto split: sum.splits)
  from Cons.prems(1) [OF _ s1] have "R s s1" by simp
  moreover have "R s1 s'"
  proof (rule Cons.IH [OF _ rest])
    fix y t t'
    assume "y \<in> set xs" and "f t y = Inr t'"
    then show "R t t'" using Cons.prems(1) [of y t t'] by simp
  qed
  ultimately show ?case by (rule trans)
qed

lemma foldE_append_list:
  assumes step: "\<And>s x s'. f s x = Inr s' \<Longrightarrow> snd s' = snd s @ g x"
    and run: "foldE f s xs = Inr s'"
  shows "snd s' = snd s @ concat (map g xs)"
  using run
proof (induction xs arbitrary: s)
  case Nil
  then show ?case by simp
next
  case (Cons x xs)
  from Cons.prems obtain s1 where s1: "f s x = Inr s1" and rest: "foldE f s1 xs = Inr s'"
    by (auto split: sum.splits)
  from step [OF s1] Cons.IH [OF rest] show ?case by simp
qed

subsection \<open>The sections of the mapping\<close>

lemma items_of_section:
  assumes "py_get m k dflt = Inr v" and "dflt = PNone \<or> dflt = PDict []"
    and "items_or_empty P v = Inr its"
  shows "items_of P (section_of m k) = its"
proof -
  from assms(1) obtain d where m: "m = PDict d"
    by (cases m) (simp_all add: py_get_def)
  show ?thesis
  proof (cases "map_of d k")
    case None
    with assms m have "its = []"
      by (auto simp: py_get_def items_or_empty_def py_or_def)
    moreover from None m have "section_of m k = PNone"
      by (simp add: section_of_def py_get_def)
    ultimately show ?thesis
      by (simp add: items_of_def items_or_empty_def py_or_def)
  next
    case (Some x)
    with assms m show ?thesis
      by (simp add: py_get_def section_of_def items_of_def)
  qed
qed

lemma items_of_constants_section:
  assumes c: "py_get m ''constants'' (PDict []) = Inr c"
    and v: "py_get c k (PDict []) = Inr v"
    and its: "items_or_empty P v = Inr its"
  shows "items_of P (section_of (section_of m ''constants'') k) = its"
proof -
  from c obtain d where m: "m = PDict d"
    by (cases m) (simp_all add: py_get_def)
  show ?thesis
  proof (cases "map_of d ''constants''")
    case None
    with c m have "c = PDict []" by (simp add: py_get_def)
    with v its have "its = []"
      by (auto simp: py_get_def items_or_empty_def py_or_def)
    moreover from None m have "section_of m ''constants'' = PNone"
      by (simp add: section_of_def py_get_def)
    ultimately show ?thesis
      by (simp add: items_of_def items_or_empty_def py_or_def section_of_def py_get_def)
  next
    case (Some x)
    with c m have "section_of m ''constants'' = c"
      by (simp add: section_of_def py_get_def)
    with items_of_section [OF v _ its] show ?thesis by simp
  qed
qed

lemma items_of_Inr: "items_or_empty P v = Inr its \<Longrightarrow> items_of P v = its"
  by (simp add: items_of_def)

subsection \<open>Produced targets\<close>

lemma produced_by_rules_concat:
  "produced_by_rules ext rules = concat (map (\<lambda>r. produced_by_rules ext [r]) rules)"
  by (induction rules) (simp_all add: produced_by_rules_def)

lemma scalar_rule_produced:
  assumes "scalar_rule P ext st r = Inr st'"
  shows "snd st' = snd st @ produced_by_rules ext [r]"
proof -
  obtain co pts where st: "st = (co, pts)" by (cases st)
  obtain n spec where r: "r = (n, spec)" by (cases r)
  from assms obtain k cfg present where parts: "rule_parts spec = Inr (k, cfg)"
    and present: "key_in k ext = Inr present"
    and rest: "(if present then
            ebind (subscript ext k) (\<lambda>raw.
            ebind (apply_transform P raw cfg) (\<lambda>val.
            Inr (AList.update n val co, pts @ [n])))
          else if has_key cfg ''default'' then
            Inr (AList.update n (cfg_get cfg ''default'') co, pts @ [n])
          else Inr (co, pts)) = Inr st'"
    unfolding scalar_rule_def st r by (auto simp: ebind_Inr_iff)
  show ?thesis
  proof (cases "present \<or> has_key cfg ''default''")
    case True
    with rest have "snd st' = pts @ [n]"
      by (auto simp: ebind_Inr_iff split: if_splits)
    moreover from True parts present have "resolves ext spec"
      by (auto simp: resolves_def)
    ultimately show ?thesis by (simp add: st r produced_by_rules_def)
  next
    case False
    with rest have "snd st' = pts" by auto
    moreover from False parts present have "\<not> resolves ext spec"
      by (auto simp: resolves_def)
    ultimately show ?thesis by (simp add: st r produced_by_rules_def)
  qed
qed

lemma var_rule_produced:
  assumes "var_rule P ext vt st r = Inr st'"
  shows "snd st' = snd st @ produced_by_rules ext [r]"
proof -
  obtain co pts where st: "st = (co, pts)" by (cases st)
  obtain n spec where r: "r = (n, spec)" by (cases r)
  from assms obtain k cfg present where parts: "rule_parts spec = Inr (k, cfg)"
    and present: "key_in k ext = Inr present"
    and rest: "(if present then
            ebind (subscript ext k) (\<lambda>raw.
            ebind (apply_transform P raw cfg) (\<lambda>val.
            ebind (add_var P co vt n val) (\<lambda>co'.
            Inr (co', pts @ [n]))))
          else if has_key cfg ''default'' then
            ebind (add_var P co vt n (cfg_get cfg ''default'')) (\<lambda>co'.
            Inr (co', pts @ [n]))
          else Inr (co, pts)) = Inr st'"
    unfolding var_rule_def st r by (auto simp: ebind_Inr_iff)
  show ?thesis
  proof (cases "present \<or> has_key cfg ''default''")
    case True
    with rest have "snd st' = pts @ [n]"
      by (auto simp: ebind_Inr_iff split: if_splits)
    moreover from True parts present have "resolves ext spec"
      by (auto simp: resolves_def)
    ultimately show ?thesis by (simp add: st r produced_by_rules_def)
  next
    case False
    with rest have "snd st' = pts" by auto
    moreover from False parts present have "\<not> resolves ext spec"
      by (auto simp: resolves_def)
    ultimately show ?thesis by (simp add: st r produced_by_rules_def)
  qed
qed

lemma scalar_rules_produced:
  assumes "scalar_rules P ext mapping st = Inr st'"
  shows "snd st' = snd st @ produced_by_rules ext (items_of P (section_of mapping ''co_fields''))"
proof -
  from assms obtain cf rules where cf: "py_get mapping ''co_fields'' PNone = Inr cf"
    and rules: "items_or_empty P cf = Inr rules"
    and run: "foldE (scalar_rule P ext) st rules = Inr st'"
    unfolding scalar_rules_def by (auto simp: ebind_Inr_iff)
  from items_of_section [OF cf _ rules]
  have "items_of P (section_of mapping ''co_fields'') = rules" by simp
  moreover from foldE_append_list [OF scalar_rule_produced run]
  have "snd st' = snd st @ produced_by_rules ext rules"
    by (simp add: produced_by_rules_concat [symmetric])
  ultimately show ?thesis by simp
qed

lemma constant_var_produced:
  "constant_var P vt st nv = Inr st' \<Longrightarrow> snd st' = snd st @ [fst nv]"
  by (cases st; cases nv) (auto simp: constant_var_def ebind_Inr_iff)

lemma constant_vars_of_type_produced:
  assumes "constant_vars_of_type P st td = Inr st'"
  shows "snd st' = snd st @ map fst (items_of P (snd td))"
proof -
  obtain vt d where td: "td = (vt, d)" by (cases td)
  from assms obtain nvs where nvs: "items_or_empty P d = Inr nvs"
    and run: "foldE (constant_var P vt) st nvs = Inr st'"
    unfolding constant_vars_of_type_def td by (auto simp: ebind_Inr_iff)
  from foldE_append_list [OF constant_var_produced run]
  have "snd st' = snd st @ map fst nvs"
    by (simp add: concat_map_singleton)
  with items_of_Inr [OF nvs] show ?thesis by (simp add: td)
qed

lemma constant_vars_produced:
  assumes "constant_vars P mapping st = Inr st'"
  shows "snd st' = snd st @ concat (map (\<lambda>td. map fst (items_of P (snd td)))
           (items_of P (section_of (section_of mapping ''constants'') ''variables'')))"
proof -
  from assms obtain c vs tds where c: "py_get mapping ''constants'' (PDict []) = Inr c"
    and vs: "py_get c ''variables'' (PDict []) = Inr vs"
    and tds: "items_or_empty P vs = Inr tds"
    and run: "foldE (constant_vars_of_type P) st tds = Inr st'"
    unfolding constant_vars_def by (auto simp: ebind_Inr_iff)
  from foldE_append_list [OF constant_vars_of_type_produced run]
    items_of_constants_section [OF c vs tds]
  show ?thesis by simp
qed

lemma var_rules_of_type_produced:
  assumes "var_rules_of_type P ext st td = Inr st'"
  shows "snd st' = snd st @ produced_by_rules ext (items_of P (snd td))"
proof -
  obtain vt d where td: "td = (vt, d)" by (cases td)
  from assms obtain rules where rules: "items_or_empty P d = Inr rules"
    and run: "foldE (var_rule P ext vt) st rules = Inr st'"
    unfolding var_rules_of_type_def td by (auto simp: ebind_Inr_iff)
  from foldE_append_list [OF var_rule_produced run]
  have "snd st' = snd st @ produced_by_rules ext rules"
    by (simp add: produced_by_rules_concat [symmetric])
  with items_of_Inr [OF rules] show ?thesis by (simp add: td)
qed

lemma var_rules_produced:
  assumes "var_rules P ext mapping st = Inr st'"
  shows "snd st' = snd st @ concat (map (\<lambda>td. produced_by_rules ext (items_of P (snd td)))
           (items_of P (section_of mapping ''variables'')))"
proof -
  from assms obtain vs tds where vs: "py_get mapping ''variables'' PNone = Inr vs"
    and tds: "items_or_empty P vs = Inr tds"
    and run: "foldE (var_rules_of_type P ext) st tds = Inr st'"
    unfolding var_rules_def by (auto simp: ebind_Inr_iff)
  from foldE_append_list [OF var_rules_of_type_produced run] items_of_section [OF vs _ tds]
  show ?thesis by simp
qed

lemma build_co_phases:
  "build_co P ext mapping = Inr (co, pts) \<longleftrightarrow>
     (\<exists>co0 co1 pts1 st2 co3.
        constant_fields P mapping = Inr co0
        \<and> scalar_rules P ext mapping (co0, []) = Inr (co1, pts1)
        \<and> constant_vars P mapping (init_collections co1, pts1) = Inr st2
        \<and> var_rules P ext mapping st2 = Inr (co3, pts)
        \<and> foldE (drop_empty P) co3 COLLECTION_KEYS = Inr co)"
  by (auto simp: build_co_def ebind_Inr_iff)

lemma build_co_produced:
  assumes "build_co P ext mapping = Inr (co, pts)"
  shows "pts = expected_produced P ext mapping"
proof -
  from assms obtain co0 co1 pts1 st2 co3 where
    s: "scalar_rules P ext mapping (co0, []) = Inr (co1, pts1)"
    and c: "constant_vars P mapping (init_collections co1, pts1) = Inr st2"
    and v: "var_rules P ext mapping st2 = Inr (co3, pts)"
    unfolding build_co_phases by blast
  from scalar_rules_produced [OF s] constant_vars_produced [OF c] var_rules_produced [OF v]
  show ?thesis by (simp add: expected_produced_def)
qed

lemma in_produced_by_rules:
  "n \<in> set (produced_by_rules ext rules) \<longleftrightarrow> (\<exists>spec. (n, spec) \<in> set rules \<and> resolves ext spec)"
  by (force simp: produced_by_rules_def)

lemma in_concat_names:
  "n \<in> set (concat (map (\<lambda>td. map fst (f td)) tds))
     \<longleftrightarrow> (\<exists>td v. td \<in> set tds \<and> (n, v) \<in> set (f td))"
  by force

lemma in_concat_rules:
  "n \<in> set (concat (map (\<lambda>td. produced_by_rules ext (f td)) tds))
     \<longleftrightarrow> (\<exists>td spec. td \<in> set tds \<and> (n, spec) \<in> set (f td) \<and> resolves ext spec)"
  by (auto simp: in_produced_by_rules)

text \<open>
  Claim C5, as the code has it. The targets that a build records as produced are, in
  this order: the scalar rules that resolve (the source key is a key of the record, or
  a default is configured), every constant of \<^verbatim>\<open>constants.variables\<close>, and the
  variable rules that resolve. A constant variable is recorded although nothing was
  resolved from the record and no default was substituted; a constant of
  \<^verbatim>\<open>constants.co_fields\<close> is not recorded.
\<close>

theorem recorded_targets:
  assumes "build_by_odm_keys P held u ext mapping d = Inr (rq, produced)"
  shows "produced = expected_produced P ext mapping
    \<and> (n \<in> set produced \<longleftrightarrow>
          (\<exists>spec. (n, spec) \<in> set (items_of P (section_of mapping ''co_fields''))
             \<and> resolves ext spec)
        \<or> (\<exists>td v. td \<in> set (items_of P (section_of (section_of mapping ''constants'') ''variables''))
             \<and> (n, v) \<in> set (items_of P (snd td)))
        \<or> (\<exists>td spec. td \<in> set (items_of P (section_of mapping ''variables''))
             \<and> (n, spec) \<in> set (items_of P (snd td)) \<and> resolves ext spec))"
proof -
  from assms obtain co where "build_co P ext mapping = Inr (co, produced)"
    unfolding build_by_odm_keys_Inr by blast
  then have eq: "produced = expected_produced P ext mapping"
    by (rule build_co_produced)
  have "n \<in> set (expected_produced P ext mapping) \<longleftrightarrow>
          (\<exists>spec. (n, spec) \<in> set (items_of P (section_of mapping ''co_fields''))
             \<and> resolves ext spec)
        \<or> (\<exists>td v. td \<in> set (items_of P (section_of (section_of mapping ''constants'') ''variables''))
             \<and> (n, v) \<in> set (items_of P (snd td)))
        \<or> (\<exists>td spec. td \<in> set (items_of P (section_of mapping ''variables''))
             \<and> (n, spec) \<in> set (items_of P (snd td)) \<and> resolves ext spec)"
    unfolding expected_produced_def
    by (simp only: set_append Un_iff in_produced_by_rules in_concat_names in_concat_rules)
  with eq show ?thesis by simp
qed

theorem recorded_targets_witness:
  "build_by_odm_keys ref_platform PNone ''0123456789abcdef'' demo_items demo_mapping PNone
     = Inr (demo_request, [''customerType'', ''channel'', ''loanAmount''])
   \<and> expected_produced ref_platform demo_items demo_mapping
     = [''customerType'', ''channel'', ''loanAmount'']"
proof -
  have built: "build_by_odm_keys ref_platform PNone ''0123456789abcdef'' demo_items demo_mapping
                 PNone
               = Inr (demo_request, [''customerType'', ''channel'', ''loanAmount''])"
    by code_simp
  from recorded_targets [OF built] built show ?thesis by simp
qed

text \<open>
  The claim as stated fails: the mapping has no rule at all, only the constant variable
  \<^verbatim>\<open>channel\<close>; nothing is resolved from the record, no default is substituted, and
  \<^verbatim>\<open>channel\<close> is recorded as produced.
\<close>

theorem constant_variable_is_produced:
  "build_by_odm_keys ref_platform PNone ''0123456789abcdef'' [] only_constant PNone
     = Inr (PDict [(''__DecisionID__'', PStr ''Decision_0123456789ab''),
                   (''coRequest'', PDict
                      [(''stringVariables'', PList [var_entry ''channel'' (PStr ''WEB'')])])],
            [''channel''])
   \<and> items_of ref_platform (section_of only_constant ''co_fields'') = []
   \<and> items_of ref_platform (section_of only_constant ''variables'') = []"
  by code_simp

subsection \<open>A rule whose source key is missing\<close>

lemma rule_parts_default:
  "rule_parts (PDict dd) = Inr (k, cfg) \<Longrightarrow> map_of cfg ''default'' = map_of dd ''default''"
  by (auto simp: rule_parts_def)

text \<open>
  Claim C6. For a rule whose source key is not a key of the record: with a default
  configured, a scalar rule writes the default itself under the target, a variable rule
  hands the default itself to \<^verbatim>\<open>_add_var\<close>, neither runs the transform pipeline, and the
  target is recorded as produced; without a default the rule changes nothing: no value
  is emitted and the target is not recorded. The default of the configuration is the
  entry \<^verbatim>\<open>default\<close> of the rule.
\<close>

theorem missing_source_key:
  assumes parts: "rule_parts spec = Inr (k, cfg)"
    and absent: "key_in k ext = Inr False"
  shows
    "(has_key cfg ''default'' \<longrightarrow>
        scalar_rule P ext (co, pts) (n, spec)
          = Inr (AList.update n (cfg_get cfg ''default'') co, pts @ [n])
        \<and> var_rule P ext vt (co, pts) (n, spec)
          = ebind (add_var P co vt n (cfg_get cfg ''default'')) (\<lambda>co'. Inr (co', pts @ [n])))
     \<and> (\<not> has_key cfg ''default'' \<longrightarrow>
          scalar_rule P ext (co, pts) (n, spec) = Inr (co, pts)
          \<and> var_rule P ext vt (co, pts) (n, spec) = Inr (co, pts))
     \<and> (\<forall>dd. spec = PDict dd \<longrightarrow> map_of cfg ''default'' = map_of dd ''default'')"
  using parts absent
  by (auto simp: scalar_rule_def var_rule_def dest: rule_parts_default)

theorem missing_source_key_witness:
  "scalar_rule ref_platform [] ([], [])
     (''segment'', PDict [(''from'', PStr ''segmento''), (''default'', PStr '' retail ''),
                          (''strip'', PBool True), (''upper'', PBool True)])
     = Inr ([(''segment'', PStr '' retail '')], [''segment''])
   \<and> var_rule ref_platform [] ''string'' ([(''stringVariables'', PList [])], [])
       (''segment'', PDict [(''from'', PStr ''segmento''), (''default'', PStr '' retail ''),
                            (''strip'', PBool True), (''upper'', PBool True)])
     = Inr ([(''stringVariables'', PList [var_entry ''segment'' (PStr '' retail '')])],
            [''segment''])
   \<and> scalar_rule ref_platform [] ([], []) (''segment'', PStr ''segmento'') = Inr ([], [])"
proof -
  let ?spec = "PDict [(''from'', PStr ''segmento''), (''default'', PStr '' retail ''),
                      (''strip'', PBool True), (''upper'', PBool True)] :: dec pyval"
  let ?cfg = "[(''default'', PStr '' retail ''), (''strip'', PBool True),
               (''upper'', PBool True)] :: dec pydict"
  have parts: "rule_parts ?spec = Inr (PStr ''segmento'', ?cfg)"
    by code_simp
  have absent: "key_in (PStr ''segmento'') ([] :: dec pydict) = Inr False"
    by code_simp
  have dflt: "has_key ?cfg ''default''" "cfg_get ?cfg ''default'' = PStr '' retail ''"
    by (simp_all add: has_key_def cfg_get_def)
  have added: "add_var ref_platform [(''stringVariables'', PList [])] ''string'' ''segment''
                 (PStr '' retail '')
               = Inr [(''stringVariables'', PList [var_entry ''segment'' (PStr '' retail '')])]"
    by code_simp
  have parts2: "rule_parts (PStr ''segmento'' :: dec pyval) = Inr (PStr ''segmento'', [])"
    by code_simp
  from missing_source_key [OF parts absent, where P = ref_platform and co = "[]" and pts = "[]"
      and n = "''segment''"]
  have a: "scalar_rule ref_platform [] ([], []) (''segment'', ?spec)
             = Inr ([(''segment'', PStr '' retail '')], [''segment''])"
    using dflt by simp
  from missing_source_key [OF parts absent, where P = ref_platform
      and co = "[(''stringVariables'', PList [])]" and pts = "[]" and n = "''segment''"
      and vt = "''string''"]
  have b: "var_rule ref_platform [] ''string'' ([(''stringVariables'', PList [])], [])
             (''segment'', ?spec)
           = Inr ([(''stringVariables'', PList [var_entry ''segment'' (PStr '' retail '')])],
                  [''segment''])"
    using dflt added by simp
  from missing_source_key [OF parts2 absent, where P = ref_platform and co = "[]" and pts = "[]"
      and n = "''segment''"]
  have c: "scalar_rule ref_platform [] ([], []) (''segment'', PStr ''segmento'') = Inr ([], [])"
    by (simp add: has_key_def)
  from a b c show ?thesis by simp
qed

subsection \<open>Typed collections only grow\<close>

lemma collection_update:
  "collection (AList.update key v co) k = (if k = key then (case v of PList xs \<Rightarrow> xs | _ \<Rightarrow> []) else collection co k)"
  by (simp add: collection_def update_conv')

lemma setdefault_list_collection:
  "setdefault_list co key = Inr xs \<Longrightarrow> collection co key = xs"
  by (auto simp: setdefault_list_def collection_def split: option.splits pyval.splits)

lemma append_var_collection:
  assumes "append_var co key n val = Inr co'"
  shows "\<exists>v. val = Inr v
           \<and> collection co' k = (if k = key then collection co key @ [var_entry n v]
                                  else collection co k)"
proof -
  from assms obtain xs v where xs: "setdefault_list co key = Inr xs" and v: "val = Inr v"
    and co': "co' = AList.update key (PList (xs @ [var_entry n v])) co"
    unfolding append_var_def by (auto simp: ebind_Inr_iff)
  from setdefault_list_collection [OF xs] v co' show ?thesis
    by (simp add: collection_update)
qed

lemma append_var_prefix:
  "append_var co key n val = Inr co' \<Longrightarrow> prefix (collection co k) (collection co' k)"
  by (drule append_var_collection [where k = k]) auto

lemma add_var_prefix:
  assumes "add_var P co vt n v = Inr co'"
  shows "prefix (collection co k) (collection co' k)"
proof (cases "v = PNone")
  case True
  with assms show ?thesis by (simp add: add_var_def)
next
  case False
  with assms show ?thesis
    by (auto simp: add_var_def ebind_Inr_iff split: if_splits dest: append_var_prefix)
qed

lemma grows_refl: "grows st st"
  by (simp add: grows_def)

lemma grows_trans: "grows a b \<Longrightarrow> grows b c \<Longrightarrow> grows a c"
  unfolding grows_def by (blast intro: prefix_order.trans)

lemma constant_var_grows: "constant_var P vt st nv = Inr st' \<Longrightarrow> grows st st'"
  by (cases st; cases nv)
    (auto simp: constant_var_def grows_def ebind_Inr_iff dest: add_var_prefix)

lemma var_rule_grows:
  assumes "var_rule P ext vt st r = Inr st'"
  shows "grows st st'"
proof -
  obtain co pts where st: "st = (co, pts)" by (cases st)
  obtain n spec where r: "r = (n, spec)" by (cases r)
  from assms have "fst st' = co \<or> (\<exists>v. add_var P co vt n v = Inr (fst st'))"
    unfolding var_rule_def st r by (auto simp: ebind_Inr_iff split: if_splits)
  then show ?thesis
    unfolding grows_def st by (auto dest: add_var_prefix)
qed

lemma constant_vars_of_type_grows:
  "constant_vars_of_type P st td = Inr st' \<Longrightarrow> grows st st'"
  by (cases td)
    (auto simp: constant_vars_of_type_def ebind_Inr_iff
      intro: foldE_rel [where R = grows] constant_var_grows grows_refl grows_trans)

lemma var_rules_of_type_grows:
  "var_rules_of_type P ext st td = Inr st' \<Longrightarrow> grows st st'"
  by (cases td)
    (auto simp: var_rules_of_type_def ebind_Inr_iff
      intro: foldE_rel [where R = grows] var_rule_grows grows_refl grows_trans)

lemma constant_vars_grows: "constant_vars P mapping st = Inr st' \<Longrightarrow> grows st st'"
  by (auto simp: constant_vars_def ebind_Inr_iff
      intro: foldE_rel [where R = grows] constant_vars_of_type_grows grows_refl grows_trans)

lemma var_rules_grows: "var_rules P ext mapping st = Inr st' \<Longrightarrow> grows st st'"
  by (auto simp: var_rules_def ebind_Inr_iff
      intro: foldE_rel [where R = grows] var_rules_of_type_grows grows_refl grows_trans)

lemma drop_empty_collection:
  assumes "drop_empty P co key = Inr co'"
  shows "collection co' k = collection co k"
proof -
  from assms obtain v where v: "map_of co key = Some v"
    and co': "co' = (if \<not> truthy P v then AList.delete key co else co)"
    unfolding drop_empty_def by (auto split: option.splits)
  show ?thesis
  proof (cases "truthy P v")
    case True
    with co' show ?thesis by simp
  next
    case False
    with v have "collection co key = []"
      by (cases v) (simp_all add: collection_def)
    with False co' show ?thesis
      by (simp add: collection_def delete_conv')
  qed
qed

lemma drop_empty_all_collection:
  assumes "foldE (drop_empty P) co ks = Inr co'"
  shows "collection co' k = collection co k"
  by (rule foldE_rel [where R = "\<lambda>a b. collection b k = collection a k", OF _ _ _ assms])
    (simp_all add: drop_empty_collection)

lemma init_collections_empty:
  "k \<in> set COLLECTION_KEYS \<Longrightarrow> collection (init_collections co) k = []"
  by (auto simp: init_collections_def COLLECTION_KEYS_def collection_update)

subsection \<open>The names in a collection\<close>

lemma entry_names_append: "entry_names (xs @ ys) = entry_names xs @ entry_names ys"
  by (simp add: entry_names_def)

lemma entry_names_var_entry: "entry_names [var_entry n v] = [PStr n]"
  by (simp add: entry_names_def var_entry_def cfg_get_def)

lemma subseq_distinct: "subseq xs ys \<Longrightarrow> distinct ys \<Longrightarrow> distinct xs"
  using subseqs_distinctD [of xs ys] by simp

lemma add_var_names:
  assumes "add_var P co vt n v = Inr co'"
  shows "\<exists>zs. entry_names (collection co' key) = entry_names (collection co key) @ zs
           \<and> subseq zs (names_for key vt [(n, v)])"
proof (cases "v = PNone")
  case True
  with assms show ?thesis by (simp add: add_var_def)
next
  case False
  with assms obtain k val where k: "collection_of_type vt = Some k"
    and app: "append_var co k n val = Inr co'"
    by (auto simp: add_var_def collection_of_type_def ebind_Inr_iff split: if_splits)
  from append_var_collection [OF app, of key] obtain x where
    "collection co' key = (if key = k then collection co k @ [var_entry n x] else collection co key)"
    by blast
  with k show ?thesis
    by (auto simp: names_for_def entry_names_append entry_names_var_entry)
qed

lemma foldE_added:
  assumes step: "\<And>s x s'. f s x = Inr s' \<Longrightarrow> \<exists>zs. h s' = h s @ zs \<and> subseq zs (g x)"
    and run: "foldE f s xs = Inr s'"
  shows "\<exists>zs. h s' = h s @ zs \<and> subseq zs (concat (map g xs))"
  using run
proof (induction xs arbitrary: s)
  case Nil
  then show ?case by simp
next
  case (Cons x xs)
  from Cons.prems obtain s1 where s1: "f s x = Inr s1" and rest: "foldE f s1 xs = Inr s'"
    by (auto split: sum.splits)
  from step [OF s1] obtain zs1 where zs1: "h s1 = h s @ zs1" "subseq zs1 (g x)" by blast
  from Cons.IH [OF rest] obtain zs2 where
    zs2: "h s' = h s1 @ zs2" "subseq zs2 (concat (map g xs))" by blast
  from zs1 zs2 have "h s' = h s @ (zs1 @ zs2)" by simp
  moreover from zs1 zs2 have "subseq (zs1 @ zs2) (concat (map g (x # xs)))"
    by (simp add: list_emb_append_mono)
  ultimately show ?case by blast
qed

lemma names_for_concat:
  "concat (map (\<lambda>nv. names_for key vt [nv]) members) = names_for key vt members"
  by (induction members) (simp_all add: names_for_def)

lemma constant_var_names:
  assumes "constant_var P vt st nv = Inr st'"
  shows "\<exists>zs. entry_names (collection (fst st') key) = entry_names (collection (fst st) key) @ zs
           \<and> subseq zs (names_for key vt [nv])"
proof -
  obtain co pts where st: "st = (co, pts)" by (cases st)
  obtain n v where nv: "nv = (n, v)" by (cases nv)
  from assms have "add_var P co vt n v = Inr (fst st')"
    unfolding constant_var_def st nv by (auto simp: ebind_Inr_iff)
  from add_var_names [OF this, of key] show ?thesis by (simp add: st nv)
qed

lemma var_rule_names:
  assumes "var_rule P ext vt st r = Inr st'"
  shows "\<exists>zs. entry_names (collection (fst st') key) = entry_names (collection (fst st) key) @ zs
           \<and> subseq zs (names_for key vt [r])"
proof -
  obtain co pts where st: "st = (co, pts)" by (cases st)
  obtain n spec where r: "r = (n, spec)" by (cases r)
  from assms consider "fst st' = co" | v where "add_var P co vt n v = Inr (fst st')"
    unfolding var_rule_def st r by (auto simp: ebind_Inr_iff split: if_splits)
  then show ?thesis
  proof cases
    case 1
    then show ?thesis by (simp add: st)
  next
    case 2
    from add_var_names [OF this, of key] show ?thesis
      by (auto simp: st r names_for_def)
  qed
qed

lemma constant_vars_of_type_names:
  assumes "constant_vars_of_type P st td = Inr st'"
  shows "\<exists>zs. entry_names (collection (fst st') key) = entry_names (collection (fst st) key) @ zs
           \<and> subseq zs (names_for key (fst td) (items_of P (snd td)))"
proof -
  obtain vt d where td: "td = (vt, d)" by (cases td)
  from assms obtain nvs where nvs: "items_or_empty P d = Inr nvs"
    and run: "foldE (constant_var P vt) st nvs = Inr st'"
    unfolding constant_vars_of_type_def td by (auto simp: ebind_Inr_iff)
  from foldE_added [where h = "\<lambda>s. entry_names (collection (fst s) key)"
      and g = "\<lambda>nv. names_for key vt [nv]", OF constant_var_names run]
    items_of_Inr [OF nvs]
  show ?thesis by (simp add: td names_for_concat)
qed

lemma var_rules_of_type_names:
  assumes "var_rules_of_type P ext st td = Inr st'"
  shows "\<exists>zs. entry_names (collection (fst st') key) = entry_names (collection (fst st) key) @ zs
           \<and> subseq zs (names_for key (fst td) (items_of P (snd td)))"
proof -
  obtain vt d where td: "td = (vt, d)" by (cases td)
  from assms obtain rules where rules: "items_or_empty P d = Inr rules"
    and run: "foldE (var_rule P ext vt) st rules = Inr st'"
    unfolding var_rules_of_type_def td by (auto simp: ebind_Inr_iff)
  from foldE_added [where h = "\<lambda>s. entry_names (collection (fst s) key)"
      and g = "\<lambda>r. names_for key vt [r]", OF var_rule_names run]
    items_of_Inr [OF rules]
  show ?thesis by (simp add: td names_for_concat)
qed

lemma constant_vars_names:
  assumes "constant_vars P mapping st = Inr st'"
  shows "\<exists>zs. entry_names (collection (fst st') key) = entry_names (collection (fst st) key) @ zs
           \<and> subseq zs (concat (map (\<lambda>td. names_for key (fst td) (items_of P (snd td)))
                (items_of P (section_of (section_of mapping ''constants'') ''variables''))))"
proof -
  from assms obtain c vs tds where c: "py_get mapping ''constants'' (PDict []) = Inr c"
    and vs: "py_get c ''variables'' (PDict []) = Inr vs"
    and tds: "items_or_empty P vs = Inr tds"
    and run: "foldE (constant_vars_of_type P) st tds = Inr st'"
    unfolding constant_vars_def by (auto simp: ebind_Inr_iff)
  from foldE_added [where h = "\<lambda>s. entry_names (collection (fst s) key)"
      and g = "\<lambda>td. names_for key (fst td) (items_of P (snd td))",
      OF constant_vars_of_type_names run]
    items_of_constants_section [OF c vs tds]
  show ?thesis by simp
qed

lemma var_rules_names:
  assumes "var_rules P ext mapping st = Inr st'"
  shows "\<exists>zs. entry_names (collection (fst st') key) = entry_names (collection (fst st) key) @ zs
           \<and> subseq zs (concat (map (\<lambda>td. names_for key (fst td) (items_of P (snd td)))
                (items_of P (section_of mapping ''variables''))))"
proof -
  from assms obtain vs tds where vs: "py_get mapping ''variables'' PNone = Inr vs"
    and tds: "items_or_empty P vs = Inr tds"
    and run: "foldE (var_rules_of_type P ext) st tds = Inr st'"
    unfolding var_rules_def by (auto simp: ebind_Inr_iff)
  from foldE_added [where h = "\<lambda>s. entry_names (collection (fst s) key)"
      and g = "\<lambda>td. names_for key (fst td) (items_of P (snd td))",
      OF var_rules_of_type_names run]
    items_of_section [OF vs _ tds]
  show ?thesis by simp
qed

lemma collection_of_type_inj:
  "collection_of_type a = Some k \<Longrightarrow> collection_of_type b = Some k \<Longrightarrow> a = b"
  by (auto simp: collection_of_type_def split: if_splits)

lemma names_for_distinct:
  assumes "distinct (map fst tds)"
    and "list_all (\<lambda>td. distinct (map fst (f td))) tds"
  shows "distinct (concat (map (\<lambda>td. names_for key (fst td) (f td)) tds))"
  using assms
proof (induction tds)
  case Nil
  then show ?case by simp
next
  case (Cons td tds)
  then have rest: "distinct (concat (map (\<lambda>td. names_for key (fst td) (f td)) tds))"
    and own: "distinct (map fst (f td))" and fresh: "fst td \<notin> fst ` set tds"
    by simp_all
  show ?case
  proof (cases "collection_of_type (fst td) = Some key")
    case True
    have "names_for key (fst t) (f t) = []" if "t \<in> set tds" for t
    proof -
      from that fresh have "fst t \<noteq> fst td" by (metis imageI)
      with True collection_of_type_inj [of "fst t" key "fst td"] show ?thesis
        by (auto simp: names_for_def)
    qed
    then have none: "concat (map (\<lambda>td. names_for key (fst td) (f td)) tds) = []"
      by simp
    from own have "distinct (names_for key (fst td) (f td))"
      by (simp add: names_for_def distinct_map inj_on_def comp_def)
    then show ?thesis by (simp add: none)
  next
    case False
    with rest show ?thesis by (simp add: names_for_def)
  qed
qed

text \<open>
  Claim C2, as the code has it. In a build, the constants of \<^verbatim>\<open>constants.variables\<close>
  are added first, to collections that start empty, and every collection as the
  constants leave it is an initial segment of the same collection of the built request:
  the rules of \<^verbatim>\<open>variables\<close> append their entries after those of the constants and
  overwrite or remove none of them. Where the keys of \<^verbatim>\<open>constants.variables\<close> and of
  its groups are distinct, the entries of the constants in a collection have distinct
  names; where the keys of \<^verbatim>\<open>variables\<close> and of its groups are distinct, so have the
  entries of the rules. Two entries of a collection with the same name are therefore one
  of a constant and one of a rule.
\<close>

theorem typed_collections_append_only:
  assumes built: "build_co P ext mapping = Inr (co, pts)"
  shows "\<exists>co1 pts1 co2 pts2.
           (\<forall>k\<in>set COLLECTION_KEYS. collection (init_collections co1) k = [])
           \<and> constant_vars P mapping (init_collections co1, pts1) = Inr (co2, pts2)
           \<and> (\<forall>k. prefix (collection co2 k) (collection co k))
           \<and> (\<forall>k\<in>set COLLECTION_KEYS.
                 (distinct_keys P (section_of (section_of mapping ''constants'') ''variables'')
                    \<longrightarrow> distinct (entry_names (collection co2 k)))
                 \<and> (distinct_keys P (section_of mapping ''variables'')
                      \<longrightarrow> distinct (entry_names
                            (drop (length (collection co2 k)) (collection co k)))))"
proof -
  from built obtain co1 pts1 st2 co3 where
    c: "constant_vars P mapping (init_collections co1, pts1) = Inr st2"
    and v: "var_rules P ext mapping st2 = Inr (co3, pts)"
    and d: "foldE (drop_empty P) co3 COLLECTION_KEYS = Inr co"
    unfolding build_co_phases by blast
  obtain co2 pts2 where st2: "st2 = (co2, pts2)" by (cases st2)
  have final: "collection co k = collection co3 k" for k
    by (rule drop_empty_all_collection [OF d])
  from var_rules_grows [OF v] have grown: "prefix (collection co2 k) (collection co k)" for k
    by (simp add: grows_def st2 final)
  have names: "(distinct_keys P (section_of (section_of mapping ''constants'') ''variables'')
                  \<longrightarrow> distinct (entry_names (collection co2 k)))
               \<and> (distinct_keys P (section_of mapping ''variables'')
                    \<longrightarrow> distinct (entry_names
                          (drop (length (collection co2 k)) (collection co k))))"
    if k: "k \<in> set COLLECTION_KEYS" for k
  proof (intro conjI impI)
    assume wf: "distinct_keys P (section_of (section_of mapping ''constants'') ''variables'')"
    from constant_vars_names [OF c, of k] init_collections_empty [OF k, of co1]
    obtain zs where "entry_names (collection co2 k) = zs"
      and "subseq zs (concat (map (\<lambda>td. names_for k (fst td) (items_of P (snd td)))
             (items_of P (section_of (section_of mapping ''constants'') ''variables''))))"
      by (auto simp: st2 entry_names_def)
    moreover from wf
    have "distinct (concat (map (\<lambda>td. names_for k (fst td) (items_of P (snd td)))
            (items_of P (section_of (section_of mapping ''constants'') ''variables''))))"
      by (simp add: distinct_keys_def names_for_distinct)
    ultimately show "distinct (entry_names (collection co2 k))"
      by (blast intro: subseq_distinct)
  next
    assume wf: "distinct_keys P (section_of mapping ''variables'')"
    from grown [of k] obtain rest where rest: "collection co k = collection co2 k @ rest"
      by (auto simp: prefix_def)
    from var_rules_names [OF v, of k]
    obtain zs where "entry_names (collection co k) = entry_names (collection co2 k) @ zs"
      and sub: "subseq zs (concat (map (\<lambda>td. names_for k (fst td) (items_of P (snd td)))
             (items_of P (section_of mapping ''variables''))))"
      by (auto simp: st2 final)
    with rest have "entry_names rest = zs"
      by (simp add: entry_names_append)
    moreover from wf
    have "distinct (concat (map (\<lambda>td. names_for k (fst td) (items_of P (snd td)))
            (items_of P (section_of mapping ''variables''))))"
      by (simp add: distinct_keys_def names_for_distinct)
    with sub have "distinct zs" by (blast intro: subseq_distinct)
    ultimately show "distinct (entry_names (drop (length (collection co2 k)) (collection co k)))"
      by (simp add: rest)
  qed
  from c st2 init_collections_empty grown names show ?thesis by blast
qed

theorem typed_collections_witness:
  "\<exists>co1 pts1 co2 pts2.
     (\<forall>k\<in>set COLLECTION_KEYS. collection (init_collections co1) k = [])
     \<and> constant_vars ref_platform demo_mapping (init_collections co1, pts1) = Inr (co2, pts2)
     \<and> (\<forall>k. prefix (collection co2 k) (collection demo_co k))
     \<and> (\<forall>k\<in>set COLLECTION_KEYS.
           (distinct_keys ref_platform (section_of (section_of demo_mapping ''constants'') ''variables'')
              \<longrightarrow> distinct (entry_names (collection co2 k)))
           \<and> (distinct_keys ref_platform (section_of demo_mapping ''variables'')
                \<longrightarrow> distinct (entry_names
                      (drop (length (collection co2 k)) (collection demo_co k)))))"
proof -
  have "build_co ref_platform demo_items demo_mapping
          = Inr (demo_co, [''customerType'', ''channel'', ''loanAmount''])"
    by code_simp
  then show ?thesis by (rule typed_collections_append_only)
qed

text \<open>
  The claim as stated fails: the constant \<^verbatim>\<open>segment\<close> and the rule \<^verbatim>\<open>segment\<close>, both
  of type \<^verbatim>\<open>string\<close>, give two entries named \<^verbatim>\<open>segment\<close> in \<^verbatim>\<open>stringVariables\<close>;
  the value of the rule does not replace the constant.
\<close>

theorem constant_and_rule_both_kept:
  "build_by_odm_keys ref_platform PNone ''0123456789abcdef'' [(''seg'', PStr ''B'')] same_name
     PNone
     = Inr (PDict [(''__DecisionID__'', PStr ''Decision_0123456789ab''),
                   (''coRequest'', PDict
                      [(''stringVariables'',
                        PList [var_entry ''segment'' (PStr ''A''),
                               var_entry ''segment'' (PStr ''B'')])])],
            [''segment'', ''segment''])"
  by code_simp

subsection \<open>Scalar fields\<close>

lemma collection_key_cases:
  "k \<notin> set COLLECTION_KEYS \<longleftrightarrow>
     k \<noteq> ''dateVariables'' \<and> k \<noteq> ''doubleVariables'' \<and> k \<noteq> ''integerVariables''
     \<and> k \<noteq> ''stringVariables'' \<and> k \<noteq> ''listOfDoubleVariables''"
  by (simp add: COLLECTION_KEYS_def)

lemma append_var_other_key:
  "append_var co key n val = Inr co' \<Longrightarrow> k \<noteq> key \<Longrightarrow> map_of co' k = map_of co k"
  by (auto simp: append_var_def ebind_Inr_iff update_conv')

lemma add_var_other_key:
  assumes "add_var P co vt n v = Inr co'" and "k \<notin> set COLLECTION_KEYS"
  shows "map_of co' k = map_of co k"
proof (cases "v = PNone")
  case True
  with assms show ?thesis by (simp add: add_var_def)
next
  case False
  with assms show ?thesis
    unfolding collection_key_cases
    by (auto simp: add_var_def ebind_Inr_iff split: if_splits dest: append_var_other_key)
qed

lemma keeps_refl: "keeps k st st"
  by (simp add: keeps_def)

lemma keeps_trans: "keeps k a b \<Longrightarrow> keeps k b c \<Longrightarrow> keeps k a c"
  by (simp add: keeps_def)

lemma constant_var_keeps:
  "constant_var P vt st nv = Inr st' \<Longrightarrow> k \<notin> set COLLECTION_KEYS \<Longrightarrow> keeps k st st'"
  by (cases st; cases nv)
    (auto simp: constant_var_def keeps_def ebind_Inr_iff dest: add_var_other_key)

lemma var_rule_keeps:
  assumes "var_rule P ext vt st r = Inr st'" and "k \<notin> set COLLECTION_KEYS"
  shows "keeps k st st'"
proof -
  obtain co pts where st: "st = (co, pts)" by (cases st)
  obtain n spec where r: "r = (n, spec)" by (cases r)
  from assms(1) have "fst st' = co \<or> (\<exists>v. add_var P co vt n v = Inr (fst st'))"
    unfolding var_rule_def st r by (auto simp: ebind_Inr_iff split: if_splits)
  with assms(2) show ?thesis
    unfolding keeps_def st by (auto dest: add_var_other_key)
qed

lemma constant_vars_of_type_keeps:
  "constant_vars_of_type P st td = Inr st' \<Longrightarrow> k \<notin> set COLLECTION_KEYS \<Longrightarrow> keeps k st st'"
  by (cases td)
    (auto simp: constant_vars_of_type_def ebind_Inr_iff
      intro: foldE_rel [where R = "keeps k"] constant_var_keeps keeps_refl keeps_trans)

lemma var_rules_of_type_keeps:
  "var_rules_of_type P ext st td = Inr st' \<Longrightarrow> k \<notin> set COLLECTION_KEYS \<Longrightarrow> keeps k st st'"
  by (cases td)
    (auto simp: var_rules_of_type_def ebind_Inr_iff
      intro: foldE_rel [where R = "keeps k"] var_rule_keeps keeps_refl keeps_trans)

lemma constant_vars_keeps:
  "constant_vars P mapping st = Inr st' \<Longrightarrow> k \<notin> set COLLECTION_KEYS \<Longrightarrow> keeps k st st'"
  by (auto simp: constant_vars_def ebind_Inr_iff
      intro: foldE_rel [where R = "keeps k"] constant_vars_of_type_keeps keeps_refl keeps_trans)

lemma var_rules_keeps:
  "var_rules P ext mapping st = Inr st' \<Longrightarrow> k \<notin> set COLLECTION_KEYS \<Longrightarrow> keeps k st st'"
  by (auto simp: var_rules_def ebind_Inr_iff
      intro: foldE_rel [where R = "keeps k"] var_rules_of_type_keeps keeps_refl keeps_trans)

lemma init_collections_other_key:
  "k \<notin> set COLLECTION_KEYS \<Longrightarrow> map_of (init_collections co) k = map_of co k"
  unfolding collection_key_cases
  by (simp add: init_collections_def COLLECTION_KEYS_def update_conv')

lemma drop_empty_other_key:
  "drop_empty P co key = Inr co' \<Longrightarrow> k \<noteq> key \<Longrightarrow> map_of co' k = map_of co k"
  by (auto simp: drop_empty_def delete_conv' split: option.splits)

lemma drop_empty_all_other_key:
  assumes "foldE (drop_empty P) co ks = Inr co'" and "k \<notin> set ks"
  shows "map_of co' k = map_of co k"
proof (rule foldE_rel [where R = "\<lambda>a b. map_of b k = map_of a k", OF _ _ _ assms(1)])
  fix s x s'
  assume "x \<in> set ks" and "drop_empty P s x = Inr s'"
  with assms(2) show "map_of s' k = map_of s k"
    by (auto dest: drop_empty_other_key)
qed simp_all

lemma scalar_rule_other_name:
  assumes "scalar_rule P ext st r = Inr st'" and "fst r \<noteq> n"
  shows "keeps n st st'"
proof -
  obtain co pts where st: "st = (co, pts)" by (cases st)
  obtain m spec where r: "r = (m, spec)" by (cases r)
  from assms(1) have "fst st' = co \<or> (\<exists>v. fst st' = AList.update m v co)"
    unfolding scalar_rule_def st r by (auto simp: ebind_Inr_iff split: if_splits)
  with assms(2) show ?thesis
    unfolding keeps_def st r by (auto simp: update_conv')
qed

lemma subscript_key_in: "subscript ext k = Inr raw \<Longrightarrow> key_in k ext = Inr True"
  by (cases k) (auto simp: subscript_def key_in_def split: option.splits)

lemma scalar_rule_writes:
  assumes "scalar_rule P ext st (n, spec) = Inr st'"
    and "rule_parts spec = Inr (k, cfg)" and "subscript ext k = Inr raw"
    and "apply_transform P raw cfg = Inr v"
  shows "map_of (fst st') n = Some v"
  using assms subscript_key_in [OF assms(3)]
  by (cases st) (auto simp: scalar_rule_def update_conv')

lemma scalar_loop_writes:
  assumes run: "foldE (scalar_rule P ext) st rules = Inr st'"
    and dist: "distinct (map fst rules)"
    and rule: "(n, spec) \<in> set rules"
    and parts: "rule_parts spec = Inr (k, cfg)" and raw: "subscript ext k = Inr raw"
    and val: "apply_transform P raw cfg = Inr v"
  shows "map_of (fst st') n = Some v"
  using run dist rule
proof (induction rules arbitrary: st)
  case Nil
  then show ?case by simp
next
  case (Cons r rules)
  from Cons.prems(1) obtain s1 where s1: "scalar_rule P ext st r = Inr s1"
    and rest: "foldE (scalar_rule P ext) s1 rules = Inr st'"
    by (auto split: sum.splits)
  show ?case
  proof (cases "r = (n, spec)")
    case True
    with s1 have "map_of (fst s1) n = Some v"
      by (simp add: scalar_rule_writes [OF _ parts raw val])
    moreover have "keeps n s1 st'"
    proof (rule foldE_rel [where R = "keeps n", OF _ keeps_refl keeps_trans rest])
      fix s x s'
      assume "x \<in> set rules" and "scalar_rule P ext s x = Inr s'"
      moreover from \<open>x \<in> set rules\<close> Cons.prems(2) True have "fst x \<noteq> n" by force
      ultimately show "keeps n s s'" by (blast intro: scalar_rule_other_name)
    qed
    ultimately show ?thesis by (simp add: keeps_def)
  next
    case False
    with Cons.prems have "distinct (map fst rules)" and "(n, spec) \<in> set rules" by auto
    with Cons.IH [OF rest] show ?thesis by simp
  qed
qed

lemma var_rule_null:
  assumes "rule_parts spec = Inr (k, cfg)" and "subscript ext k = Inr raw"
    and "apply_transform P raw cfg = Inr PNone"
  shows "var_rule P ext vt (co, pts) (n, spec) = Inr (co, pts @ [n])"
  using assms subscript_key_in [OF assms(2)]
  by (simp add: var_rule_def add_var_def)

text \<open>
  Claim C10, as the code has it. A scalar rule whose source key is a key of the record
  and whose pipeline gives \<^verbatim>\<open>None\<close> leaves its target in the scalar part of the built
  request, with the value \<^verbatim>\<open>None\<close>, and the target is recorded as produced, provided
  the target is not named like one of the five collections (the keys of \<^verbatim>\<open>co_fields\<close>
  are distinct, as those of a dictionary are). A variable rule with such a source key
  and pipeline adds no entry: it leaves \<^verbatim>\<open>co\<close> as it is and records its target.
\<close>

theorem null_scalar_is_written:
  assumes built: "build_co P ext mapping = Inr (co, pts)"
    and dist: "distinct (map fst (items_of P (section_of mapping ''co_fields'')))"
    and rule: "(n, spec) \<in> set (items_of P (section_of mapping ''co_fields''))"
    and free: "n \<notin> set COLLECTION_KEYS"
    and parts: "rule_parts spec = Inr (k, cfg)"
    and raw: "subscript ext k = Inr raw"
    and null: "apply_transform P raw cfg = Inr PNone"
  shows "map_of co n = Some PNone \<and> n \<in> set pts
    \<and> var_rule P ext vt (co', pts') (n', spec) = Inr (co', pts' @ [n'])"
proof -
  from built obtain co0 co1 pts1 st2 co3 where
    s: "scalar_rules P ext mapping (co0, []) = Inr (co1, pts1)"
    and c: "constant_vars P mapping (init_collections co1, pts1) = Inr st2"
    and v: "var_rules P ext mapping st2 = Inr (co3, pts)"
    and d: "foldE (drop_empty P) co3 COLLECTION_KEYS = Inr co"
    unfolding build_co_phases by blast
  from s obtain cf rules where cf: "py_get mapping ''co_fields'' PNone = Inr cf"
    and rules: "items_or_empty P cf = Inr rules"
    and run: "foldE (scalar_rule P ext) (co0, []) rules = Inr (co1, pts1)"
    unfolding scalar_rules_def by (auto simp: ebind_Inr_iff)
  from items_of_section [OF cf _ rules]
  have items: "items_of P (section_of mapping ''co_fields'') = rules" by simp
  from scalar_loop_writes [OF run _ _ parts raw null] dist rule items
  have "map_of co1 n = Some PNone" by simp
  with init_collections_other_key [OF free, of co1]
  have "map_of (init_collections co1) n = Some PNone" by simp
  with constant_vars_keeps [OF c free] have "map_of (fst st2) n = Some PNone"
    by (simp add: keeps_def)
  with var_rules_keeps [OF v free] have "map_of co3 n = Some PNone"
    by (simp add: keeps_def)
  with drop_empty_all_other_key [OF d free] have written: "map_of co n = Some PNone"
    by simp
  from parts subscript_key_in [OF raw] have "resolves ext spec"
    by (simp add: resolves_def)
  with rule have "n \<in> set (produced_by_rules ext (items_of P (section_of mapping ''co_fields'')))"
    unfolding in_produced_by_rules by blast
  with build_co_produced [OF built] have "n \<in> set pts"
    by (simp add: expected_produced_def)
  with written var_rule_null [OF parts raw null] show ?thesis by simp
qed

theorem null_scalar_witness:
  "build_co ref_platform [(''k'', PNone)] null_rules
     = Inr ([(''comment'', PNone)], [''comment'', ''note''])
   \<and> map_of [(''comment'', PNone :: dec pyval)] ''comment'' = Some PNone
   \<and> var_rule ref_platform [(''k'', PNone)] ''string'' ([(''stringVariables'', PList [])], [])
       (''note'', PStr ''k'')
     = Inr ([(''stringVariables'', PList [])], [''note''])"
proof -
  let ?ext = "[(''k'', PNone)] :: dec pydict"
  have built: "build_co ref_platform ?ext null_rules
                 = Inr ([(''comment'', PNone)], [''comment'', ''note''])"
    by code_simp
  have items: "items_of ref_platform (section_of null_rules ''co_fields'')
                 = [(''comment'', PStr ''k'')]"
    by code_simp
  have dist: "distinct (map fst (items_of ref_platform (section_of null_rules ''co_fields'')))"
    by (simp add: items)
  have rule: "(''comment'', PStr ''k'')
                \<in> set (items_of ref_platform (section_of null_rules ''co_fields''))"
    by (simp add: items)
  have free: "''comment'' \<notin> set COLLECTION_KEYS"
    by (simp add: COLLECTION_KEYS_def)
  have parts: "rule_parts (PStr ''k'' :: dec pyval) = Inr (PStr ''k'', [])"
    by code_simp
  have raw: "subscript ?ext (PStr ''k'') = Inr PNone"
    by code_simp
  have null: "apply_transform ref_platform PNone [] = Inr PNone"
    by code_simp
  from null_scalar_is_written [OF built dist rule free parts raw null,
      where vt = "''string''" and co' = "[(''stringVariables'', PList [])]" and pts' = "[]"
        and n' = "''note''"]
    built
  show ?thesis by simp
qed

text \<open>
  The claim as stated fails: the scalar rule \<^verbatim>\<open>dateVariables\<close> reads the key \<^verbatim>\<open>k\<close>,
  whose value is \<^verbatim>\<open>None\<close>; the entry written under \<^verbatim>\<open>dateVariables\<close> is replaced by
  the empty collection of line 127 and removed with it, so the built request has no
  such field.
\<close>

theorem null_scalar_dropped:
  "build_by_odm_keys ref_platform PNone ''0123456789abcdef'' [(''k'', PNone)] reserved_name
     PNone
     = Inr (PDict [(''__DecisionID__'', PStr ''Decision_0123456789ab''),
                   (''coRequest'', PDict [])],
            [''dateVariables''])"
  by code_simp

end
